(* ===== verification/Prelude.thy ===== *)
theory Prelude
  imports Main "HOL-Library.Sublist"
begin

text \<open>
  Shared vocabulary of the development: the type of timestamps, the collections of
  facts that the component theories feed and their proofs use, and generic lemmas on
  lists that several components need (removing the request the network answers from
  the list of requests in flight).
\<close>

type_synonym timestamp = nat

named_theorems handler_defs
  "definitions of the operation lists that event handlers issue, unfolded together"

named_theorems js_defs
  "definitions of the ECMAScript helpers, unfolded together"

definition remove_nth :: "nat \<Rightarrow> 'a list \<Rightarrow> 'a list" where
  "remove_nth i xs = take i xs @ drop (Suc i) xs"

lemma remove_nth_Cons_0 [simp]: "remove_nth 0 (x # xs) = xs"
  by (simp add: remove_nth_def)

lemma length_remove_nth [simp]:
  "i < length xs \<Longrightarrow> length (remove_nth i xs) = length xs - 1"
  by (simp add: remove_nth_def)

lemma set_remove_nth_subset: "set (remove_nth i xs) \<subseteq> set xs"
  by (auto simp: remove_nth_def dest: in_set_takeD in_set_dropD)

lemma remove_nth_eq_Nil_iff:
  "i < length xs \<Longrightarrow> remove_nth i xs = [] \<longleftrightarrow> length xs = 1"
  by (cases xs) (auto simp: remove_nth_def)

end
