(* ===== verification/JsValue.thy ===== *)
theory JsValue
  imports Prelude
begin

text \<open>
  The ECMAScript semantics that \<open>src/src/components/ChatInterface.jsx\<close> relies on and
  that is not code of the repository: the values \<open>JSON.parse\<close> produces (plus
  \<open>undefined\<close>), truthiness (\<open>if (data.reply)\<close>, \<open>a || b\<close>), property access
  (\<open>errorData.error\<close>, which throws a TypeError on \<open>null\<close>), the string conversion of a
  template literal (\<open>`Error: ${errorData.error}`\<close>) and \<open>String.prototype.trim\<close>.
  Numbers are the integers (JSON numbers with a fraction or an exponent are not
  modelled); strings are lists of 8-bit characters, so the whitespace that \<open>trim\<close>
  removes is the part of the ECMAScript WhiteSpace and LineTerminator sets below 256.
\<close>

section \<open>Values\<close>

datatype jsval =
    JUndefined
  | JNull
  | JBool bool
  | JNum int
  | JStr string
  | JArr "jsval list"
  | JObj "(string \<times> jsval) list"

datatype js_error = TypeError

text \<open>ToBoolean: \<open>undefined\<close>, \<open>null\<close>, \<open>false\<close>, \<open>0\<close> and \<open>""\<close> are falsy.\<close>

fun js_truthy :: "jsval \<Rightarrow> bool" where
  "js_truthy JUndefined = False"
| "js_truthy JNull = False"
| "js_truthy (JBool b) = b"
| "js_truthy (JNum n) = (n \<noteq> 0)"
| "js_truthy (JStr s) = (s \<noteq> [])"
| "js_truthy (JArr _) = True"
| "js_truthy (JObj _) = True"

text \<open>\<open>a || b\<close>: the left operand when it is truthy, the right one otherwise.\<close>

definition js_or :: "jsval \<Rightarrow> jsval \<Rightarrow> jsval" where
  [js_defs]: "js_or a b = (if js_truthy a then a else b)"

text \<open>
  Property access \<open>v.k\<close> for the two keys the component reads (\<open>reply\<close>, \<open>error\<close>):
  a TypeError on \<open>undefined\<close> and \<open>null\<close>; on an object parsed by \<open>JSON.parse\<close> the
  last binding of the key wins; any other value has no such own or inherited property.
\<close>

definition obj_lookup :: "(string \<times> jsval) list \<Rightarrow> string \<Rightarrow> jsval" where
  [js_defs]: "obj_lookup fs k = (case map_of (rev fs) k of None \<Rightarrow> JUndefined | Some v \<Rightarrow> v)"

fun js_get :: "jsval \<Rightarrow> string \<Rightarrow> js_error + jsval" where
  "js_get JUndefined k = Inl TypeError"
| "js_get JNull k = Inl TypeError"
| "js_get (JObj fs) k = Inr (obj_lookup fs k)"
| "js_get (JBool _) k = Inr JUndefined"
| "js_get (JNum _) k = Inr JUndefined"
| "js_get (JStr _) k = Inr JUndefined"
| "js_get (JArr _) k = Inr JUndefined"

section \<open>String conversion\<close>

definition digit_char :: "nat \<Rightarrow> char" where
  "digit_char d = char_of (48 + d)"

fun nat_decimal :: "nat \<Rightarrow> string" where
  "nat_decimal n =
     (if n < 10 then [digit_char n] else nat_decimal (n div 10) @ [digit_char (n mod 10)])"

declare nat_decimal.simps [simp del]

definition int_decimal :: "int \<Rightarrow> string" where
  "int_decimal i = (if i < 0 then CHR ''-'' # nat_decimal (nat (- i)) else nat_decimal (nat i))"

fun js_join :: "string list \<Rightarrow> string" where
  "js_join [] = []"
| "js_join [s] = s"
| "js_join (s # ss) = s @ CHR '','' # js_join ss"

text \<open>
  ToString as a template literal applies it; an array is joined with commas, its
  \<open>undefined\<close> and \<open>null\<close> elements as empty strings; a plain object prints as
  \<open>[object Object]\<close>.
\<close>

fun js_to_string :: "jsval \<Rightarrow> string" where
  "js_to_string JUndefined = ''undefined''"
| "js_to_string JNull = ''null''"
| "js_to_string (JBool b) = (if b then ''true'' else ''false'')"
| "js_to_string (JNum n) = int_decimal n"
| "js_to_string (JStr s) = s"
| "js_to_string (JArr vs) =
     js_join (map (\<lambda>v. if v = JUndefined \<or> v = JNull then [] else js_to_string v) vs)"
| "js_to_string (JObj _) = ''[object Object]''"

section \<open>\<open>String.prototype.trim\<close>\<close>

definition js_is_ws :: "char \<Rightarrow> bool" where
  "js_is_ws c = (of_char c \<in> set [9, 10, 11, 12, 13, 32, 160 :: nat])"

definition js_trim :: "string \<Rightarrow> string" where
  "js_trim s = rev (dropWhile js_is_ws (rev (dropWhile js_is_ws s)))"

section \<open>Lemmas\<close>

lemma js_or_truthy [simp]: "js_truthy a \<Longrightarrow> js_or a b = a"
  by (simp add: js_or_def)

lemma js_or_falsy [simp]: "\<not> js_truthy a \<Longrightarrow> js_or a b = b"
  by (simp add: js_or_def)

lemma obj_lookup_snoc [simp]: "obj_lookup (fs @ [(k, v)]) k = v"
  by (simp add: obj_lookup_def)

lemma obj_lookup_Nil [simp]: "obj_lookup [] k = JUndefined"
  by (simp add: obj_lookup_def)

lemma obj_lookup_single [simp]: "obj_lookup [(k', v)] k = (if k = k' then v else JUndefined)"
  by (simp add: obj_lookup_def)

lemma dropWhile_all_iff_Nil:
  "(\<forall>c\<in>set (dropWhile P xs). P c) \<longleftrightarrow> dropWhile P xs = []"
proof
  assume all: "\<forall>c\<in>set (dropWhile P xs). P c"
  show "dropWhile P xs = []"
  proof (rule ccontr)
    assume ne: "dropWhile P xs \<noteq> []"
    then have "\<not> P (hd (dropWhile P xs))" by (rule hd_dropWhile)
    moreover from ne have "hd (dropWhile P xs) \<in> set (dropWhile P xs)" by simp
    ultimately show False using all by blast
  qed
qed (auto dest: set_dropWhileD)

lemma js_trim_eq_Nil_iff: "js_trim s = [] \<longleftrightarrow> (\<forall>c\<in>set s. js_is_ws c)"
proof -
  let ?a = "dropWhile js_is_ws s"
  have "js_trim s = [] \<longleftrightarrow> (\<forall>c\<in>set ?a. js_is_ws c)"
    by (simp add: js_trim_def dropWhile_eq_Nil_conv)
  also have "\<dots> \<longleftrightarrow> ?a = []" by (rule dropWhile_all_iff_Nil)
  finally show ?thesis by (simp add: dropWhile_eq_Nil_conv)
qed

lemma js_trim_decomp:
  "\<exists>p q. s = p @ js_trim s @ q \<and> (\<forall>c\<in>set p. js_is_ws c) \<and> (\<forall>c\<in>set q. js_is_ws c)"
proof -
  let ?p = "takeWhile js_is_ws s" and ?a = "dropWhile js_is_ws s"
  let ?q = "rev (takeWhile js_is_ws (rev ?a))"
  have "?a = rev (rev ?a)" by simp
  also have "\<dots> = rev (takeWhile js_is_ws (rev ?a) @ dropWhile js_is_ws (rev ?a))"
    by simp
  also have "\<dots> = js_trim s @ ?q"
    unfolding js_trim_def by (rule rev_append)
  finally have a: "?a = js_trim s @ ?q" .
  have "s = ?p @ ?a" by simp
  also have "\<dots> = ?p @ js_trim s @ ?q" using a by (rule arg_cong)
  finally have "s = ?p @ js_trim s @ ?q" .
  moreover have "\<forall>c\<in>set ?p. js_is_ws c" by (blast dest: set_takeWhileD)
  moreover have "\<forall>c\<in>set ?q. js_is_ws c" by (auto dest: set_takeWhileD)
  ultimately show ?thesis by blast
qed

lemma rev_dropWhile_rev_Cons:
  "\<not> P x \<Longrightarrow> rev (dropWhile P (rev (x # r))) = x # rev (dropWhile P (rev r))"
  by (simp add: dropWhile_append dropWhile_eq_Nil_conv)

lemma js_trim_ends:
  assumes "js_trim s \<noteq> []"
  shows "\<not> js_is_ws (hd (js_trim s)) \<and> \<not> js_is_ws (last (js_trim s))"
proof
  let ?a = "dropWhile js_is_ws s"
  have t: "js_trim s = rev (dropWhile js_is_ws (rev ?a))" by (simp add: js_trim_def)
  have ne: "dropWhile js_is_ws (rev ?a) \<noteq> []" using assms t by auto
  then show "\<not> js_is_ws (last (js_trim s))"
    unfolding t by (simp add: last_rev hd_dropWhile)
  have ane: "?a \<noteq> []"
  proof
    assume "?a = []"
    with ne show False by simp
  qed
  then obtain x r where a: "?a = x # r" by (cases ?a) auto
  from ane have "\<not> js_is_ws (hd ?a)" by (rule hd_dropWhile)
  with a have x: "\<not> js_is_ws x" by simp
  have "js_trim s = x # rev (dropWhile js_is_ws (rev r))"
    unfolding t a by (rule rev_dropWhile_rev_Cons [where P = js_is_ws, OF x])
  with x show "\<not> js_is_ws (hd (js_trim s))" by simp
qed

lemma js_trim_idem: "js_trim (js_trim s) = js_trim s"
proof (cases "js_trim s = []")
  case True
  then show ?thesis by (simp add: js_trim_def [of "[]"])
next
  case False
  let ?t = "js_trim s"
  from js_trim_ends [OF False] have h: "\<not> js_is_ws (hd ?t)" and l: "\<not> js_is_ws (last ?t)"
    by auto
  have "dropWhile js_is_ws ?t = ?t" using h by (simp add: dropWhile_eq_self_iff)
  moreover have "dropWhile js_is_ws (rev ?t) = rev ?t"
    using l False by (simp add: dropWhile_eq_self_iff hd_rev)
  ultimately show ?thesis by (simp add: js_trim_def [of ?t])
qed

end
