(* ===== verification/Store.thy ===== *)
theory Store
  imports JsValue
begin

text \<open>
  The Conversation State Store: the state that \<open>ChatInterface\<close>
  (\<open>src/src/components/ChatInterface.jsx\<close>, lines 4--7) keeps in four React state
  hooks, and the setters through which every handler changes it. A message is the object
  literal \<open>{sender, text, timestamp}\<close> the handlers append. The state record also
  holds the requests issued by \<open>fetch\<close> and not yet answered: the network's part of
  the state, which the dispatch protocol adds to and the gateway's answers remove from.
  Each setter call of the source is one value of \<open>store_op\<close>; a handler is the list of
  the setter calls it makes, in order, and \<open>apply_ops\<close> runs that list, as React applies
  the queued updates of one event in the order they were made.
\<close>

section \<open>Data\<close>

text \<open>The sender field holds the string \<open>"user"\<close> or \<open>"bot"\<close>.\<close>

datatype sender = User | Bot

record message =
  sender :: sender
  msg_text :: jsval
  timestamp :: timestamp

record chat_state =
  messages :: "message list"
  newMessage :: string
  isBotThinking :: bool
  error :: jsval
  inflight :: "string list"

text \<open>\<open>useState([])\<close>, \<open>useState("")\<close>, \<open>useState(false)\<close>, \<open>useState("")\<close>, no request.\<close>

definition init_state :: chat_state where
  "init_state = \<lparr>messages = [], newMessage = [], isBotThinking = False, error = JStr [],
     inflight = []\<rparr>"

section \<open>Setters\<close>

datatype store_op =
    AppendMessage message   \<comment> \<open>\<open>setMessages((prev) => [...prev, m])\<close>\<close>
  | ClearMessages           \<comment> \<open>\<open>setMessages([])\<close>\<close>
  | SetNewMessage string    \<comment> \<open>\<open>setNewMessage(v)\<close>\<close>
  | SetBotThinking bool     \<comment> \<open>\<open>setIsBotThinking(b)\<close>\<close>
  | SetError jsval          \<comment> \<open>\<open>setError(v)\<close>\<close>
  | Fetch string            \<comment> \<open>\<open>fetch(..., {body: JSON.stringify({message})})\<close>\<close>

fun apply_op :: "store_op \<Rightarrow> chat_state \<Rightarrow> chat_state" where
  "apply_op (AppendMessage m) s = s\<lparr>messages := messages s @ [m]\<rparr>"
| "apply_op ClearMessages s = s\<lparr>messages := []\<rparr>"
| "apply_op (SetNewMessage v) s = s\<lparr>newMessage := v\<rparr>"
| "apply_op (SetBotThinking b) s = s\<lparr>isBotThinking := b\<rparr>"
| "apply_op (SetError v) s = s\<lparr>error := v\<rparr>"
| "apply_op (Fetch msg) s = s\<lparr>inflight := inflight s @ [msg]\<rparr>"

definition apply_ops :: "store_op list \<Rightarrow> chat_state \<Rightarrow> chat_state" where
  "apply_ops ops s = fold apply_op ops s"

section \<open>What an operation list does to each field\<close>

fun appended :: "store_op list \<Rightarrow> message list" where
  "appended [] = []"
| "appended (AppendMessage m # ops) = m # appended ops"
| "appended (ClearMessages # ops) = appended ops"
| "appended (_ # ops) = appended ops"

fun fetched :: "store_op list \<Rightarrow> string list" where
  "fetched [] = []"
| "fetched (Fetch msg # ops) = msg # fetched ops"
| "fetched (_ # ops) = fetched ops"

fun clears :: "store_op list \<Rightarrow> bool" where
  "clears [] = False"
| "clears (ClearMessages # ops) = True"
| "clears (_ # ops) = clears ops"

text \<open>The value a field has after the list: the last setter call wins.\<close>

fun last_thinking :: "store_op list \<Rightarrow> bool option" where
  "last_thinking [] = None"
| "last_thinking (SetBotThinking b # ops) =
     (case last_thinking ops of None \<Rightarrow> Some b | r \<Rightarrow> r)"
| "last_thinking (_ # ops) = last_thinking ops"

fun last_error :: "store_op list \<Rightarrow> jsval option" where
  "last_error [] = None"
| "last_error (SetError v # ops) = (case last_error ops of None \<Rightarrow> Some v | r \<Rightarrow> r)"
| "last_error (_ # ops) = last_error ops"

fun last_input :: "store_op list \<Rightarrow> string option" where
  "last_input [] = None"
| "last_input (SetNewMessage v # ops) = (case last_input ops of None \<Rightarrow> Some v | r \<Rightarrow> r)"
| "last_input (_ # ops) = last_input ops"

section \<open>Lemmas\<close>

lemma apply_ops_Nil [simp]: "apply_ops [] s = s"
  by (simp add: apply_ops_def)

lemma apply_ops_Cons [simp]: "apply_ops (op # ops) s = apply_ops ops (apply_op op s)"
  by (simp add: apply_ops_def)

lemma apply_ops_append [simp]: "apply_ops (xs @ ys) s = apply_ops ys (apply_ops xs s)"
  by (simp add: apply_ops_def)

lemma messages_apply_ops:
  "\<not> clears ops \<Longrightarrow> messages (apply_ops ops s) = messages s @ appended ops"
proof (induction ops arbitrary: s)
  case Nil
  then show ?case by simp
next
  case (Cons op ops)
  then show ?case by (cases op) auto
qed

lemma inflight_apply_ops: "inflight (apply_ops ops s) = inflight s @ fetched ops"
  by (induction ops arbitrary: s rule: fetched.induct) auto

lemma isBotThinking_apply_ops:
  "isBotThinking (apply_ops ops s) = (case last_thinking ops of None \<Rightarrow> isBotThinking s | Some b \<Rightarrow> b)"
  by (induction ops arbitrary: s rule: last_thinking.induct) (auto split: option.splits)

lemma error_apply_ops:
  "error (apply_ops ops s) = (case last_error ops of None \<Rightarrow> error s | Some v \<Rightarrow> v)"
  by (induction ops arbitrary: s rule: last_error.induct) (auto split: option.splits)

lemma newMessage_apply_ops:
  "newMessage (apply_ops ops s) = (case last_input ops of None \<Rightarrow> newMessage s | Some v \<Rightarrow> v)"
  by (induction ops arbitrary: s rule: last_input.induct) (auto split: option.splits)

lemmas apply_ops_fields =
  messages_apply_ops inflight_apply_ops isBotThinking_apply_ops error_apply_ops
  newMessage_apply_ops

end
