(* ===== verification/Dispatch.thy ===== *)
theory Dispatch
  imports Store
begin

text \<open>
  The Dispatch Protocol of \<open>src/src/components/ChatInterface.jsx\<close>:
  \<open>handleSendMessage\<close> (lines 77--85) and the asynchronous \<open>sendMessageToGemini\<close>
  (lines 22--75), with \<open>handleClearChat\<close> (lines 87--90) and the dismissal of the error
  toast (line 180). \<open>sendMessageToGemini\<close> runs in two atomic segments separated by its
  awaits: the part before the first \<open>await\<close> (set the thinking flag, issue the request)
  runs inside the \<open>handleSendMessage\<close> event; everything after the last \<open>await\<close>
  (classify the outcome, append the bot message, the \<open>finally\<close> clause) runs when the
  gateway's answer arrives, as one segment, since no setter is called between the awaits.
  Each segment is the list of setter calls it makes (\<open>store_op\<close>), run by
  \<open>apply_ops\<close>. What the gateway answered is a \<open>fetch_result\<close>: \<open>fetch\<close> rejected,
  or a response with its \<open>ok\<close> flag and the result of \<open>response.json()\<close>
  (\<open>None\<close> when the body does not parse and the promise rejects).
\<close>

section \<open>Messages\<close>

definition user_message :: "timestamp \<Rightarrow> string \<Rightarrow> message" where
  [handler_defs]: "user_message now t = \<lparr>sender = User, msg_text = JStr t, timestamp = now\<rparr>"

definition bot_message :: "timestamp \<Rightarrow> jsval \<Rightarrow> message" where
  [handler_defs]: "bot_message now v = \<lparr>sender = Bot, msg_text = v, timestamp = now\<rparr>"

section \<open>The gateway's answer\<close>

datatype fetch_result =
    FetchRejected
  | Response bool "jsval option"

section \<open>\<open>sendMessageToGemini\<close>\<close>

text \<open>Before the first \<open>await\<close> (lines 23--29).\<close>

definition start_ops :: "string \<Rightarrow> store_op list" where
  [handler_defs]: "start_ops message = [SetBotThinking True, Fetch message]"

text \<open>The \<open>catch\<close> clause (lines 62--71).\<close>

definition catch_ops :: "timestamp \<Rightarrow> store_op list" where
  [handler_defs]: "catch_ops now =
     [SetError (JStr ''Failed to send message.''),
      AppendMessage (bot_message now (JStr ''Failed to send message.''))]"

text \<open>
  A response that is not \<open>ok\<close>, once its body parsed to \<open>errorData\<close> (lines 31--43).
  Reading \<open>errorData.error\<close> throws on a \<open>null\<close> body, which the \<open>catch\<close> clause
  handles.
\<close>

definition error_response_ops :: "timestamp \<Rightarrow> jsval \<Rightarrow> store_op list" where
  [handler_defs]: "error_response_ops now errorData =
     (case js_get errorData ''error'' of
        Inl _ \<Rightarrow> catch_ops now
      | Inr e \<Rightarrow>
          [SetError (js_or e (JStr ''Unknown error'')),
           AppendMessage (bot_message now (JStr (''Error: '' @ js_to_string e)))])"

text \<open>An \<open>ok\<close> response, once its body parsed to \<open>data\<close> (lines 45--61).\<close>

definition reply_ops :: "timestamp \<Rightarrow> jsval \<Rightarrow> store_op list" where
  [handler_defs]: "reply_ops now data =
     (case js_get data ''reply'' of
        Inl _ \<Rightarrow> catch_ops now
      | Inr r \<Rightarrow>
          (if js_truthy r then [AppendMessage (bot_message now r)]
           else [AppendMessage (bot_message now (JStr ''No response from the tutor.''))]))"

text \<open>The \<open>try\<close> block after the request, with its \<open>catch\<close> (lines 24--71).\<close>

definition outcome_ops :: "timestamp \<Rightarrow> fetch_result \<Rightarrow> store_op list" where
  [handler_defs]: "outcome_ops now res =
     (case res of
        FetchRejected \<Rightarrow> catch_ops now
      | Response ok body \<Rightarrow>
          (case body of
             None \<Rightarrow> catch_ops now
           | Some d \<Rightarrow> (if \<not> ok then error_response_ops now d else reply_ops now d)))"

text \<open>After the last \<open>await\<close>, the \<open>finally\<close> clause included (lines 24--74).\<close>

definition settle_ops :: "timestamp \<Rightarrow> fetch_result \<Rightarrow> store_op list" where
  [handler_defs]: "settle_ops now res = outcome_ops now res @ [SetBotThinking False]"

text \<open>
  The gateway answers the request at position \<open>i\<close> of those in flight; there is no
  such answer when no request is there.
\<close>

definition sendMessageToGemini_settle ::
  "nat \<Rightarrow> timestamp \<Rightarrow> fetch_result \<Rightarrow> chat_state \<Rightarrow> chat_state option" where
  "sendMessageToGemini_settle i now res s =
     (if i < length (inflight s)
      then Some (apply_ops (settle_ops now res) (s\<lparr>inflight := remove_nth i (inflight s)\<rparr>))
      else None)"

section \<open>Event handlers\<close>

definition handleSendMessage_ops :: "chat_state \<Rightarrow> timestamp \<Rightarrow> store_op list" where
  "handleSendMessage_ops s now =
     (if js_trim (newMessage s) = [] then []
      else [AppendMessage (user_message now (js_trim (newMessage s)))]
           @ start_ops (js_trim (newMessage s))
           @ [SetNewMessage []])"

definition handleSendMessage :: "chat_state \<Rightarrow> timestamp \<Rightarrow> chat_state" where
  "handleSendMessage s now = apply_ops (handleSendMessage_ops s now) s"

definition handleClearChat_ops :: "store_op list" where
  [handler_defs]: "handleClearChat_ops = [ClearMessages, SetError (JStr [])]"

definition handleClearChat :: "chat_state \<Rightarrow> chat_state" where
  "handleClearChat s = apply_ops handleClearChat_ops s"

definition dismissError_ops :: "store_op list" where
  [handler_defs]: "dismissError_ops = [SetError (JStr [])]"

definition dismissError :: "chat_state \<Rightarrow> chat_state" where
  "dismissError s = apply_ops dismissError_ops s"

section \<open>Each handler, field by field\<close>

lemma handleSendMessage_eq:
  "handleSendMessage s now =
     (if js_trim (newMessage s) = [] then s
      else s\<lparr>messages := messages s @ [user_message now (js_trim (newMessage s))],
             newMessage := [], isBotThinking := True,
             inflight := inflight s @ [js_trim (newMessage s)]\<rparr>)"
  by (simp add: handleSendMessage_def handleSendMessage_ops_def start_ops_def)

lemma outcome_ops_shape:
  "\<not> clears (outcome_ops now res) \<and> fetched (outcome_ops now res) = []
   \<and> last_thinking (outcome_ops now res) = None \<and> last_input (outcome_ops now res) = None
   \<and> (\<exists>v. appended (outcome_ops now res) = [bot_message now v])"
  by (auto simp: handler_defs split: fetch_result.splits option.splits sum.splits)

lemma sendMessageToGemini_settle_eq:
  "sendMessageToGemini_settle i now res s =
     (if i < length (inflight s)
      then Some (s\<lparr>messages := messages s @ appended (outcome_ops now res),
                   isBotThinking := False,
                   error := (case last_error (outcome_ops now res) of
                               None \<Rightarrow> error s | Some v \<Rightarrow> v),
                   inflight := remove_nth i (inflight s)\<rparr>)
      else None)"
proof -
  let ?s = "s\<lparr>inflight := remove_nth i (inflight s)\<rparr>"
  let ?t = "apply_ops (outcome_ops now res) ?s"
  have "?t = ?s\<lparr>messages := messages s @ appended (outcome_ops now res),
                 error := (case last_error (outcome_ops now res) of
                             None \<Rightarrow> error s | Some v \<Rightarrow> v)\<rparr>"
    using outcome_ops_shape [of now res]
    by (intro chat_state.equality) (simp_all add: apply_ops_fields split: option.splits)
  then show ?thesis
    by (cases s) (simp add: sendMessageToGemini_settle_def settle_ops_def)
qed

lemma sendMessageToGemini_settle_Some_iff:
  "(\<exists>s'. sendMessageToGemini_settle i now res s = Some s') \<longleftrightarrow> i < length (inflight s)"
  by (simp add: sendMessageToGemini_settle_def)

lemma handleClearChat_ops_eq: "apply_ops handleClearChat_ops s = s\<lparr>messages := [], error := JStr []\<rparr>"
  by (simp add: handleClearChat_ops_def)

lemma dismissError_ops_eq: "apply_ops dismissError_ops s = s\<lparr>error := JStr []\<rparr>"
  by (simp add: dismissError_ops_def)

section \<open>Properties of the dispatch protocol\<close>

text \<open>
  C1. Whatever the gateway answers, the segment that settles a dispatch appends
  exactly one message, a bot message stamped with the time of the answer, issues no
  request, clears nothing, and leaves the thinking flag alone until its last setter
  call, which clears it: the \<open>finally\<close> clause runs on every path.
\<close>

theorem settle_ops_single_bot_then_idle:
  "\<exists>ops m. settle_ops now res = ops @ [SetBotThinking False] \<and> appended ops = [m]
     \<and> sender m = Bot \<and> timestamp m = now \<and> \<not> clears ops \<and> fetched ops = []
     \<and> last_thinking ops = None"
proof -
  from outcome_ops_shape [of now res] obtain v
    where "appended (outcome_ops now res) = [bot_message now v]"
      and "\<not> clears (outcome_ops now res)" and "fetched (outcome_ops now res) = []"
      and "last_thinking (outcome_ops now res) = None"
    by blast
  then show ?thesis
    by (intro exI [of _ "outcome_ops now res"] exI [of _ "bot_message now v"])
       (simp add: settle_ops_def bot_message_def)
qed

text \<open>
  C2. Sending input that is empty or all whitespace changes nothing: no message is
  appended, no request is issued, and the input is not cleared.
\<close>

theorem handleSendMessage_blank:
  assumes "list_all js_is_ws (newMessage s)"
  shows "handleSendMessage s now = s"
  using assms by (simp add: handleSendMessage_eq js_trim_eq_Nil_iff list_all_iff)

theorem handleSendMessage_blank_witness:
  "(list_all js_is_ws '' \<newline>'') \<and>
   handleSendMessage (init_state\<lparr>newMessage := '' \<newline>''\<rparr>) 7 = init_state\<lparr>newMessage := '' \<newline>''\<rparr>"
proof -
  have h: "list_all js_is_ws '' \<newline>''" by (simp add: js_is_ws_def)
  show ?thesis
    using h handleSendMessage_blank [of "init_state\<lparr>newMessage := '' \<newline>''\<rparr>" 7] by simp
qed

text \<open>
  C3. Sending input with a non-whitespace character appends one user message holding
  the trimmed input, sets the thinking flag, issues exactly one request carrying the
  trimmed input, and clears the input field; the error and the earlier messages are
  kept.
\<close>

theorem handleSendMessage_accepted:
  assumes "\<not> (list_all js_is_ws (newMessage s))"
  shows "handleSendMessage s now =
    s\<lparr>messages := messages s @ [user_message now (js_trim (newMessage s))],
      newMessage := [], isBotThinking := True,
      inflight := inflight s @ [js_trim (newMessage s)]\<rparr>"
proof -
  from assms have "js_trim (newMessage s) \<noteq> []" by (simp add: js_trim_eq_Nil_iff list_all_iff)
  then show ?thesis by (simp add: handleSendMessage_eq)
qed

theorem handleSendMessage_accepted_witness:
  "\<not> (list_all js_is_ws '' Namaskar '') \<and>
   handleSendMessage (init_state\<lparr>newMessage := '' Namaskar ''\<rparr>) 7 =
   init_state\<lparr>messages := [user_message 7 ''Namaskar''], isBotThinking := True,
              inflight := [''Namaskar'']\<rparr>"
proof -
  have h: "\<not> (list_all js_is_ws '' Namaskar '')" by (simp add: js_is_ws_def)
  have t: "js_trim '' Namaskar '' = ''Namaskar''" by (simp add: js_trim_def js_is_ws_def)
  show ?thesis
    using h handleSendMessage_accepted [of "init_state\<lparr>newMessage := '' Namaskar ''\<rparr>" 7]
    by (simp add: t init_state_def)
qed

text \<open>
  C4. A successful response whose \<open>reply\<close> field is truthy settles the dispatch by
  appending a bot message with exactly that reply; the error is left as it was, the
  thinking flag is cleared and the answered request leaves the set in flight.
\<close>

theorem settle_reply:
  assumes "i < length (inflight s)" and "js_truthy (obj_lookup fs ''reply'')"
  shows "sendMessageToGemini_settle i now (Response True (Some (JObj fs))) s =
    Some (s\<lparr>messages := messages s @ [bot_message now (obj_lookup fs ''reply'')],
            isBotThinking := False, inflight := remove_nth i (inflight s)\<rparr>)"
  using assms by (simp add: sendMessageToGemini_settle_eq outcome_ops_def reply_ops_def)

theorem settle_reply_witness:
  "sendMessageToGemini_settle 0 9 (Response True (Some (JObj [(''reply'', JStr ''Bonjour'')])))
     (init_state\<lparr>isBotThinking := True, inflight := [''Hello'']\<rparr>) =
   Some (init_state\<lparr>messages := [bot_message 9 (JStr ''Bonjour'')]\<rparr>)"
  using settle_reply [of 0 "init_state\<lparr>isBotThinking := True, inflight := [''Hello'']\<rparr>"
      "[(''reply'', JStr ''Bonjour'')]" 9]
  by (simp add: init_state_def)

text \<open>
  C5. A successful response without a truthy \<open>reply\<close> (no field, an empty string,
  \<open>null\<close>, \<open>0\<close>, \<open>false\<close>) appends the fixed fallback text and is not treated as an
  error: the error is left as it was.
\<close>

theorem settle_no_reply:
  assumes "i < length (inflight s)" and "\<not> js_truthy (obj_lookup fs ''reply'')"
  shows "sendMessageToGemini_settle i now (Response True (Some (JObj fs))) s =
    Some (s\<lparr>messages := messages s @ [bot_message now (JStr ''No response from the tutor.'')],
            isBotThinking := False, inflight := remove_nth i (inflight s)\<rparr>)"
  using assms by (simp add: sendMessageToGemini_settle_eq outcome_ops_def reply_ops_def)

theorem settle_no_reply_witness:
  "sendMessageToGemini_settle 0 9 (Response True (Some (JObj [])))
     (init_state\<lparr>isBotThinking := True, error := JStr ''earlier'', inflight := [''Hello'']\<rparr>) =
   Some (init_state\<lparr>messages := [bot_message 9 (JStr ''No response from the tutor.'')],
                    error := JStr ''earlier''\<rparr>)"
  using settle_no_reply [of 0
      "init_state\<lparr>isBotThinking := True, error := JStr ''earlier'', inflight := [''Hello'']\<rparr>"
      "[]" 9]
  by (simp add: init_state_def)

text \<open>
  C6. A response that is not \<open>ok\<close>, with an object body, sets the error to the body's
  \<open>error\<close> field when that is truthy and to \<open>"Unknown error"\<close> otherwise, and appends
  a bot message \<open>"Error: "\<close> followed by the field converted to a string.
\<close>

theorem settle_gateway_error:
  assumes "i < length (inflight s)"
  shows "sendMessageToGemini_settle i now (Response False (Some (JObj fs))) s =
    Some (s\<lparr>messages := messages s @
               [bot_message now (JStr (''Error: '' @ js_to_string (obj_lookup fs ''error'')))],
            isBotThinking := False,
            error := js_or (obj_lookup fs ''error'') (JStr ''Unknown error''),
            inflight := remove_nth i (inflight s)\<rparr>)"
  using assms by (simp add: sendMessageToGemini_settle_eq outcome_ops_def error_response_ops_def)

theorem settle_gateway_error_witness:
  "sendMessageToGemini_settle 0 9 (Response False (Some (JObj [(''error'', JStr ''rate limited'')])))
     (init_state\<lparr>isBotThinking := True, inflight := [''Hello'']\<rparr>) =
   Some (init_state\<lparr>messages := [bot_message 9 (JStr ''Error: rate limited'')],
                    error := JStr ''rate limited''\<rparr>)"
  using settle_gateway_error [of 0 "init_state\<lparr>isBotThinking := True, inflight := [''Hello'']\<rparr>"
      9 "[(''error'', JStr ''rate limited'')]"]
  by (simp add: init_state_def)

text \<open>
  C7. When \<open>fetch\<close> rejects (connection refused, DNS failure), the error and a bot
  message both become the generic \<open>"Failed to send message."\<close>.
\<close>

theorem settle_transport_failure:
  assumes "i < length (inflight s)"
  shows "sendMessageToGemini_settle i now FetchRejected s =
    Some (s\<lparr>messages := messages s @ [bot_message now (JStr ''Failed to send message.'')],
            isBotThinking := False, error := JStr ''Failed to send message.'',
            inflight := remove_nth i (inflight s)\<rparr>)"
  using assms by (simp add: sendMessageToGemini_settle_eq outcome_ops_def catch_ops_def)

theorem settle_transport_failure_witness:
  "sendMessageToGemini_settle 1 9 FetchRejected
     (init_state\<lparr>isBotThinking := True, inflight := [''a'', ''b'']\<rparr>) =
   Some (init_state\<lparr>messages := [bot_message 9 (JStr ''Failed to send message.'')],
                    error := JStr ''Failed to send message.'', inflight := [''a'']\<rparr>)"
  using settle_transport_failure [of 1 "init_state\<lparr>isBotThinking := True, inflight := [''a'', ''b'']\<rparr>" 9]
  by (simp add: init_state_def remove_nth_def)

text \<open>
  C8. A response whose body does not parse as JSON, ok or not, and a response that is
  not ok with the body \<open>null\<close>, are handled exactly as a rejected \<open>fetch\<close>: the
  rejection of \<open>response.json()\<close> and the TypeError of \<open>null.error\<close> both reach the
  \<open>catch\<close> clause, so the gateway's failure is reported as a transport failure.
\<close>

theorem settle_unparseable_body:
  "sendMessageToGemini_settle i now (Response ok None) s =
     sendMessageToGemini_settle i now FetchRejected s \<and>
   sendMessageToGemini_settle i now (Response False (Some JNull)) s =
     sendMessageToGemini_settle i now FetchRejected s"
  by (simp add: sendMessageToGemini_settle_def settle_ops_def outcome_ops_def error_response_ops_def)

text \<open>
  C17. Clearing the chat empties the transcript and clears the error, and touches
  nothing else: the thinking flag and the requests in flight are left as they are, so a
  clear during a dispatch does not cancel it.
\<close>

theorem handleClearChat_resets:
  "handleClearChat s = s\<lparr>messages := [], error := JStr []\<rparr>"
  by (simp add: handleClearChat_def handleClearChat_ops_eq)

text \<open>Clearing twice is clearing once.\<close>

lemma handleClearChat_idem: "handleClearChat (handleClearChat s) = handleClearChat s"
  by (simp add: handleClearChat_def handleClearChat_ops_eq)

end
