(* ===== verification/View.thy ===== *)
theory View
  imports Dispatch
begin

text \<open>
  What \<open>ChatInterface\<close> renders (the JSX of lines 92--221 of
  \<open>src/src/components/ChatInterface.jsx\<close>) and the event bindings in it: the input's
  \<open>onChange\<close> (line 197), its \<open>onKeyDown\<close> (lines 198--203), the send button, whose
  \<open>onClick\<close> a browser does not fire while it is \<open>disabled\<close> (lines 206--208), the
  clear button (line 100) and the close button of the error toast (line 180). A rendered
  screen is a \<open>view\<close> record: the placeholder shown on an empty transcript, one bubble
  per message, the typing indicator, the toast and the state of the send button. Styling
  and the locale-dependent time format are not modelled; a bubble carries the raw
  timestamp.
\<close>

section \<open>The rendered screen\<close>

record bubble =
  from_user :: bool
  label :: string
  bubble_text :: jsval
  bubble_time :: timestamp

record view =
  show_placeholder :: bool
  bubbles :: "bubble list"
  show_typing :: bool
  toast :: "jsval option"
  send_disabled :: bool
  input_value :: string

text \<open>One message bubble (lines 122--143).\<close>

definition render_bubble :: "message \<Rightarrow> bubble" where
  "render_bubble m =
     \<lparr>from_user = (sender m = User), label = (if sender m = User then ''You'' else ''Tutor''),
      bubble_text = msg_text m, bubble_time = timestamp m\<rparr>"

text \<open>\<open>disabled={isBotThinking || newMessage.trim() === ""}\<close> (line 208).\<close>

definition sendDisabled :: "chat_state \<Rightarrow> bool" where
  "sendDisabled s = (isBotThinking s \<or> js_trim (newMessage s) = [])"

definition render :: "chat_state \<Rightarrow> view" where
  "render s =
     \<lparr>show_placeholder = (messages s = []),
      bubbles = map render_bubble (messages s),
      show_typing = isBotThinking s,
      toast = (if js_truthy (error s) then Some (error s) else None),
      send_disabled = sendDisabled s,
      input_value = newMessage s\<rparr>"

text \<open>
  React renders a string, a number, a boolean, \<open>null\<close> or \<open>undefined\<close> as a child,
  and an array of valid children; it throws on a plain object ("Objects are not valid as
  a React child"). A screen renders when every bubble text (line 139) and the toast text
  (line 178) is a valid child.
\<close>

fun react_child_ok :: "jsval \<Rightarrow> bool" where
  "react_child_ok (JObj _) = False"
| "react_child_ok (JArr vs) = list_all react_child_ok vs"
| "react_child_ok _ = True"

definition renders :: "view \<Rightarrow> bool" where
  "renders v =
     (list_all (\<lambda>b. react_child_ok (bubble_text b)) (bubbles v) \<and>
      (case toast v of None \<Rightarrow> True | Some e \<Rightarrow> react_child_ok e))"

section \<open>Event bindings\<close>

text \<open>\<open>onChange={(e) => setNewMessage(e.target.value)}\<close> (line 197).\<close>

definition onInputChange :: "chat_state \<Rightarrow> string \<Rightarrow> chat_state" where
  "onInputChange s v = apply_op (SetNewMessage v) s"

text \<open>
  \<open>onKeyDown\<close> (lines 198--203): Enter without Shift calls \<open>handleSendMessage\<close>;
  nothing checks \<open>isBotThinking\<close> on this path.
\<close>

definition onKeyDown :: "chat_state \<Rightarrow> timestamp \<Rightarrow> string \<Rightarrow> bool \<Rightarrow> chat_state" where
  "onKeyDown s now key shift = (if key = ''Enter'' \<and> \<not> shift then handleSendMessage s now else s)"

text \<open>The send button's \<open>onClick\<close>, which does not fire while it is disabled.\<close>

definition onSendClick :: "chat_state \<Rightarrow> timestamp \<Rightarrow> chat_state" where
  "onSendClick s now = (if sendDisabled s then s else handleSendMessage s now)"

section \<open>Lemmas\<close>

lemma onSendClick_eq: "onSendClick s now = (if isBotThinking s then s else handleSendMessage s now)"
  by (simp add: onSendClick_def sendDisabled_def handleSendMessage_eq)

lemma onKeyDown_Enter [simp]: "onKeyDown s now ''Enter'' False = handleSendMessage s now"
  by (simp add: onKeyDown_def)

section \<open>Properties of the rendered screen\<close>

text \<open>
  C19. Closing the error toast hides it and changes nothing else on the screen: the
  transcript's bubbles, the typing indicator, the input and the send button stay.
\<close>

theorem dismiss_view:
  "toast (render (dismissError s)) = None \<and>
   bubbles (render (dismissError s)) = bubbles (render s) \<and>
   show_typing (render (dismissError s)) = show_typing (render s) \<and>
   input_value (render (dismissError s)) = input_value (render s) \<and>
   send_disabled (render (dismissError s)) = send_disabled (render s)"
  by (simp add: render_def dismissError_def dismissError_ops_eq sendDisabled_def)

text \<open>
  C24. After a clear the screen shows the placeholder and no toast, while the typing
  indicator stays as it was: a reply still pending keeps the indicator on over the empty
  transcript.
\<close>

theorem clear_view:
  "show_placeholder (render (handleClearChat s)) \<and> bubbles (render (handleClearChat s)) = [] \<and>
   toast (render (handleClearChat s)) = None \<and>
   show_typing (render (handleClearChat s)) = show_typing (render s)"
  by (simp add: render_def handleClearChat_def handleClearChat_ops_eq)

end
