(* ===== verification/Session.thy ===== *)
theory Session
  imports View
begin

text \<open>
  The running component: the user's events and the gateway's answers as a step function
  on \<open>chat_state\<close>, and the states reachable from \<open>init_state\<close>. An event is one
  binding of the JSX firing (\<open>View\<close>) or the gateway answering one of the requests in
  flight (the continuation of \<open>sendMessageToGemini\<close> after its awaits); any number of
  user events may come between a request and its answer, and answers may come in any
  order, which is the interleaving JavaScript's single thread allows. \<open>reach P\<close> is the
  set of states reachable by the events that \<open>P\<close> admits: \<open>any_event\<close> is the
  program as written, \<open>keyboard_gated\<close> restricts the user to pressing Enter only while
  no reply is pending (the discipline the spec expects of the caller and that the send
  button enforces), \<open>without_clear\<close> excludes the clear button. \<open>run\<close> executes a
  concrete list of timed events.
\<close>

section \<open>Events and steps\<close>

datatype ui_event =
    InputChange string
  | KeyDown string bool
  | SendClick
  | ClearClick
  | DismissClick
  | GatewayAnswer nat fetch_result

fun ui_step :: "chat_state \<Rightarrow> timestamp \<Rightarrow> ui_event \<Rightarrow> chat_state option" where
  "ui_step s now (InputChange v) = Some (onInputChange s v)"
| "ui_step s now (KeyDown k sh) = Some (onKeyDown s now k sh)"
| "ui_step s now SendClick = Some (onSendClick s now)"
| "ui_step s now ClearClick = Some (handleClearChat s)"
| "ui_step s now DismissClick = Some (dismissError s)"
| "ui_step s now (GatewayAnswer i res) = sendMessageToGemini_settle i now res s"

inductive reach :: "(chat_state \<Rightarrow> ui_event \<Rightarrow> bool) \<Rightarrow> chat_state \<Rightarrow> bool"
  for P :: "chat_state \<Rightarrow> ui_event \<Rightarrow> bool" where
  reach_init: "reach P init_state"
| reach_step: "reach P s \<Longrightarrow> P s e \<Longrightarrow> ui_step s now e = Some s' \<Longrightarrow> reach P s'"

definition any_event :: "chat_state \<Rightarrow> ui_event \<Rightarrow> bool" where
  "any_event s e = True"

definition keyboard_gated :: "chat_state \<Rightarrow> ui_event \<Rightarrow> bool" where
  "keyboard_gated s e = (case e of KeyDown _ _ \<Rightarrow> \<not> isBotThinking s | _ \<Rightarrow> True)"

definition without_clear :: "chat_state \<Rightarrow> ui_event \<Rightarrow> bool" where
  "without_clear s e = (e \<noteq> ClearClick)"

fun run :: "(chat_state \<Rightarrow> ui_event \<Rightarrow> bool) \<Rightarrow> chat_state \<Rightarrow> (timestamp \<times> ui_event) list
             \<Rightarrow> chat_state option" where
  "run P s [] = Some s"
| "run P s ((now, e) # es) =
     (if P s e then (case ui_step s now e of None \<Rightarrow> None | Some s' \<Rightarrow> run P s' es) else None)"

definition count_sender :: "sender \<Rightarrow> message list \<Rightarrow> nat" where
  "count_sender who ms = length (filter (\<lambda>m. sender m = who) ms)"

section \<open>Invariants and lemmas\<close>

lemma run_reach: "reach P s \<Longrightarrow> run P s es = Some s' \<Longrightarrow> reach P s'"
proof (induction es arbitrary: s)
  case Nil
  then show ?case by simp
next
  case (Cons x es)
  obtain now e where x: "x = (now, e)" by fastforce
  from Cons.prems x obtain s1 where p: "P s e" and st: "ui_step s now e = Some s1"
      and r: "run P s1 es = Some s'"
    by (auto split: if_splits option.splits)
  from Cons.prems(1) p st have "reach P s1" by (rule reach_step)
  then show ?case using r by (rule Cons.IH)
qed

lemma ui_step_cases:
  assumes "ui_step s now e = Some s'"
  obtains (same) "s' = s"
  | (input) v where "s' = s\<lparr>newMessage := v\<rparr>"
  | (send) "js_trim (newMessage s) \<noteq> []"
      "(\<exists>k sh. e = KeyDown k sh) \<or> (e = SendClick \<and> \<not> isBotThinking s)"
      "s' = s\<lparr>messages := messages s @ [user_message now (js_trim (newMessage s))],
              newMessage := [], isBotThinking := True,
              inflight := inflight s @ [js_trim (newMessage s)]\<rparr>"
  | (clear) "e = ClearClick" "s' = s\<lparr>messages := [], error := JStr []\<rparr>"
  | (dismiss) "s' = s\<lparr>error := JStr []\<rparr>"
  | (answer) i res v where "e = GatewayAnswer i res" "i < length (inflight s)"
      "appended (outcome_ops now res) = [bot_message now v]"
      "s' = s\<lparr>messages := messages s @ [bot_message now v], isBotThinking := False,
              error := (case last_error (outcome_ops now res) of None \<Rightarrow> error s | Some w \<Rightarrow> w),
              inflight := remove_nth i (inflight s)\<rparr>"
proof (cases e)
  case (InputChange v)
  with assms show ?thesis by (intro input [of v]) (simp add: onInputChange_def)
next
  case (KeyDown k sh)
  show ?thesis
  proof (cases "k = ''Enter'' \<and> \<not> sh \<and> js_trim (newMessage s) \<noteq> []")
    case True
    with assms KeyDown show ?thesis
      by (intro send) (auto simp: onKeyDown_def handleSendMessage_eq)
  next
    case False
    with assms KeyDown show ?thesis
      by (intro same) (auto simp: onKeyDown_def handleSendMessage_eq)
  qed
next
  case SendClick
  with assms show ?thesis
    by (cases "js_trim (newMessage s) = []")
       (auto simp: onSendClick_eq handleSendMessage_eq intro: same send split: if_splits)
next
  case ClearClick
  with assms show ?thesis
    by (intro clear) (simp_all add: handleClearChat_def handleClearChat_ops_eq)
next
  case DismissClick
  with assms show ?thesis by (intro dismiss) (simp add: dismissError_def dismissError_ops_eq)
next
  case (GatewayAnswer i res)
  obtain v where v: "appended (outcome_ops now res) = [bot_message now v]"
    using outcome_ops_shape [of now res] by blast
  from assms GatewayAnswer have "i < length (inflight s)"
    by (simp add: sendMessageToGemini_settle_def split: if_splits)
  with assms GatewayAnswer v show ?thesis
    by (intro answer [of i res v]) (simp_all add: sendMessageToGemini_settle_eq)
qed

definition user_msgs_trimmed :: "chat_state \<Rightarrow> bool" where
  "user_msgs_trimmed s =
     list_all (\<lambda>m. sender m = User \<longrightarrow> (\<exists>t. msg_text m = JStr t \<and> t \<noteq> [] \<and> js_trim t = t))
       (messages s)"

definition session_inv :: "chat_state \<Rightarrow> bool" where
  "session_inv s = ((isBotThinking s \<longrightarrow> inflight s \<noteq> []) \<and> user_msgs_trimmed s)"

lemma session_inv_init: "session_inv init_state"
  by (simp add: session_inv_def user_msgs_trimmed_def init_state_def)

lemma session_inv_step:
  assumes "ui_step s now e = Some s'" and "session_inv s"
  shows "session_inv s'"
  using assms(1)
proof (cases rule: ui_step_cases)
  case send
  then show ?thesis using assms(2)
    by (simp add: session_inv_def user_msgs_trimmed_def user_message_def js_trim_idem)
next
  case (answer i res v)
  then show ?thesis using assms(2)
    by (simp add: session_inv_def user_msgs_trimmed_def bot_message_def)
qed (use assms(2) in \<open>auto simp: session_inv_def user_msgs_trimmed_def\<close>)

lemma reach_session_inv: "reach P s \<Longrightarrow> session_inv s"
  by (induction rule: reach.induct) (auto intro: session_inv_init session_inv_step)

definition gated_inv :: "chat_state \<Rightarrow> bool" where
  "gated_inv s = ((isBotThinking s \<longleftrightarrow> inflight s \<noteq> []) \<and> length (inflight s) \<le> 1)"

lemma gated_inv_step:
  assumes "ui_step s now e = Some s'" and "keyboard_gated s e" and "gated_inv s"
  shows "gated_inv s'"
  using assms(1)
proof (cases rule: ui_step_cases)
  case send
  with assms(2,3) show ?thesis by (auto simp: gated_inv_def keyboard_gated_def)
next
  case (answer i res v)
  with assms(3) show ?thesis
    by (auto simp: gated_inv_def remove_nth_eq_Nil_iff)
qed (use assms(3) in \<open>auto simp: gated_inv_def\<close>)

lemma reach_mono:
  assumes "reach P s" and "\<And>t e. P t e \<Longrightarrow> Q t e"
  shows "reach Q s"
  using assms(1)
proof (induction rule: reach.induct)
  case reach_init
  then show ?case by (rule reach.reach_init)
next
  case (reach_step s e now s')
  then show ?case using assms(2) by (blast intro: reach.reach_step)
qed

lemma reach_gated_inv: "reach keyboard_gated s \<Longrightarrow> gated_inv s"
proof (induction rule: reach.induct)
  case reach_init
  then show ?case by (simp add: gated_inv_def init_state_def)
next
  case (reach_step s e now s')
  then show ?case by (blast intro: gated_inv_step)
qed

definition dispatch_count_inv :: "chat_state \<Rightarrow> bool" where
  "dispatch_count_inv s =
     (count_sender User (messages s) = count_sender Bot (messages s) + length (inflight s))"

lemma dispatch_count_inv_step:
  assumes "ui_step s now e = Some s'" and "e \<noteq> ClearClick" and "dispatch_count_inv s"
  shows "dispatch_count_inv s'"
  using assms(1)
proof (cases rule: ui_step_cases)
  case send
  with assms(3) show ?thesis
    by (simp add: dispatch_count_inv_def count_sender_def user_message_def)
next
  case (answer i res v)
  with assms(3) show ?thesis
    by (simp add: dispatch_count_inv_def count_sender_def bot_message_def)
next
  case clear
  with assms(2) show ?thesis by simp
qed (use assms(3) in \<open>simp_all add: dispatch_count_inv_def\<close>)

lemma reach_dispatch_count_inv: "reach without_clear s \<Longrightarrow> dispatch_count_inv s"
proof (induction rule: reach.induct)
  case reach_init
  then show ?case by (simp add: dispatch_count_inv_def count_sender_def init_state_def)
next
  case (reach_step s e now s')
  then show ?case by (auto simp: without_clear_def intro: dispatch_count_inv_step)
qed

lemma ui_step_messages:
  assumes "ui_step s now e = Some s'" and "e \<noteq> ClearClick"
  shows "\<exists>ms. messages s' = messages s @ ms"
  using assms(1) by (cases rule: ui_step_cases) (use assms(2) in auto)

lemma drain:
  assumes "reach P s" and "length rs = length (inflight s)"
    and "\<forall>t e. P t e"
  shows "\<exists>s'. run P s (map (\<lambda>r. (now, GatewayAnswer 0 r)) rs) = Some s'
               \<and> \<not> isBotThinking s' \<and> inflight s' = []"
  using assms
proof (induction rs arbitrary: s)
  case Nil
  then have "session_inv s" by (blast intro: reach_session_inv)
  with Nil show ?case by (simp add: session_inv_def)
next
  case (Cons r rs)
  let ?s1 = "s\<lparr>messages := messages s @ appended (outcome_ops now r), isBotThinking := False,
                error := (case last_error (outcome_ops now r) of None \<Rightarrow> error s | Some v \<Rightarrow> v),
                inflight := remove_nth 0 (inflight s)\<rparr>"
  from Cons.prems(2) have ne: "0 < length (inflight s)" by (cases "inflight s") auto
  then have st: "ui_step s now (GatewayAnswer 0 r) = Some ?s1"
    by (simp add: sendMessageToGemini_settle_eq)
  have r1: "reach P ?s1"
    using Cons.prems(1) Cons.prems(3) st by (blast intro: reach_step)
  have "length rs = length (inflight ?s1)" using Cons.prems(2) ne by simp
  from Cons.IH [OF r1 this Cons.prems(3)] obtain s' where
    run: "run P ?s1 (map (\<lambda>r. (now, GatewayAnswer 0 r)) rs) = Some s'"
    and idle: "\<not> isBotThinking s'" "inflight s' = []" by blast
  have p: "P s (GatewayAnswer 0 r)" using Cons.prems(3) by blast
  have "run P s (map (\<lambda>r. (now, GatewayAnswer 0 r)) (r # rs)) = Some s'"
    using p st run by simp
  with idle show ?case by blast
qed

definition inflight_trimmed :: "chat_state \<Rightarrow> bool" where
  "inflight_trimmed s = list_all (\<lambda>t. t \<noteq> [] \<and> js_trim t = t) (inflight s)"

lemma inflight_trimmed_step:
  assumes "ui_step s now e = Some s'" and "inflight_trimmed s"
  shows "inflight_trimmed s'"
  using assms(1)
proof (cases rule: ui_step_cases)
  case send
  then show ?thesis using assms(2) by (simp add: inflight_trimmed_def js_trim_idem)
next
  case (answer i res v)
  then show ?thesis using assms(2) set_remove_nth_subset [of i "inflight s"]
    by (auto simp: inflight_trimmed_def list_all_iff)
qed (use assms(2) in \<open>simp_all add: inflight_trimmed_def\<close>)

lemma reach_inflight_trimmed: "reach P s \<Longrightarrow> inflight_trimmed s"
  by (induction rule: reach.induct) (auto simp: init_state_def inflight_trimmed_def
      intro: inflight_trimmed_step [unfolded inflight_trimmed_def])

lemmas session_eval =
  any_event_def keyboard_gated_def without_clear_def onInputChange_def onKeyDown_def
  onSendClick_eq handleSendMessage_eq handleClearChat_def handleClearChat_ops_eq
  dismissError_def dismissError_ops_eq sendMessageToGemini_settle_eq js_trim_def js_is_ws_def
  init_state_def handler_defs remove_nth_def count_sender_def

section \<open>Properties of the running component\<close>

definition enter_twice :: "(timestamp \<times> ui_event) list" where
  "enter_twice = [(1, InputChange ''a''), (2, KeyDown ''Enter'' False), (3, InputChange ''b''),
                  (4, KeyDown ''Enter'' False)]"

text \<open>
  C9. In every reachable state of the program as written, the typing indicator is on
  only while some request is in flight: no path sets the flag and leaves it without a
  request whose answer will clear it.
\<close>

theorem reach_thinking_has_request:
  assumes "reach any_event s" and "isBotThinking s"
  shows "inflight s \<noteq> []"
  using reach_session_inv [OF assms(1)] assms(2) by (simp add: session_inv_def)

theorem reach_thinking_has_request_witness:
  "reach any_event (init_state\<lparr>messages := [user_message 2 ''a''], isBotThinking := True,
                                inflight := [''a'']\<rparr>) \<and>
   isBotThinking (init_state\<lparr>messages := [user_message 2 ''a''], isBotThinking := True,
                             inflight := [''a'']\<rparr>) \<and>
   inflight (init_state\<lparr>messages := [user_message 2 ''a''], isBotThinking := True,
                        inflight := [''a'']\<rparr>) \<noteq> []"
proof -
  let ?s = "init_state\<lparr>messages := [user_message 2 ''a''], isBotThinking := True,
                       inflight := [''a'']\<rparr>"
  have "run any_event init_state (take 2 enter_twice) = Some ?s"
    by (simp add: enter_twice_def session_eval)
  then have r: "reach any_event ?s" by (rule run_reach [OF reach_init])
  have t: "isBotThinking ?s" by simp
  show ?thesis using r t reach_thinking_has_request [OF r t] by simp
qed

text \<open>
  C10. If the user never presses Enter while a reply is pending (the send button already
  cannot be clicked then), the protocol is single-flight: at most one request is in
  flight, and the typing indicator is on exactly while one is.
\<close>

theorem gated_single_flight:
  assumes "reach keyboard_gated s"
  shows "(isBotThinking s \<longleftrightarrow> inflight s \<noteq> []) \<and> length (inflight s) \<le> 1"
  using reach_gated_inv [OF assms] by (simp add: gated_inv_def)

theorem gated_single_flight_witness:
  "reach keyboard_gated (init_state\<lparr>messages := [user_message 2 ''a''], isBotThinking := True,
                                    inflight := [''a'']\<rparr>) \<and>
   (isBotThinking (init_state\<lparr>messages := [user_message 2 ''a''], isBotThinking := True,
                              inflight := [''a'']\<rparr>) \<longleftrightarrow> [''a''] \<noteq> []) \<and>
   length [''a''] \<le> 1"
proof -
  let ?s = "init_state\<lparr>messages := [user_message 2 ''a''], isBotThinking := True,
                       inflight := [''a'']\<rparr>"
  have "run keyboard_gated init_state (take 2 enter_twice) = Some ?s"
    by (simp add: enter_twice_def session_eval)
  then have r: "reach keyboard_gated ?s" by (rule run_reach [OF reach_init])
  show ?thesis using r gated_single_flight [OF r] by simp
qed

text \<open>
  C11. The program as written is not single-flight: Enter in the input field calls
  \<open>handleSendMessage\<close> without checking \<open>isBotThinking\<close>, so typing and pressing
  Enter again while a reply is pending issues a second request.
\<close>

theorem enter_key_double_dispatch:
  "\<exists>s. reach any_event s \<and> length (inflight s) = 2 \<and> isBotThinking s"
proof -
  let ?s = "init_state\<lparr>messages := [user_message 2 ''a'', user_message 4 ''b''],
                       isBotThinking := True, inflight := [''a'', ''b'']\<rparr>"
  have "run any_event init_state enter_twice = Some ?s"
    by (simp add: enter_twice_def session_eval)
  then have "reach any_event ?s" by (rule run_reach [OF reach_init])
  then show ?thesis by (intro exI [of _ ?s]) simp
qed

text \<open>
  C12. Consequently the typing indicator can be off while a request is still in flight:
  the first answer's \<open>finally\<close> clears \<open>isBotThinking\<close> for both dispatches, and
  the send button is enabled again before the second reply arrives.
\<close>

theorem enter_key_idle_while_in_flight:
  "\<exists>s. reach any_event s \<and> inflight s \<noteq> [] \<and> \<not> isBotThinking s"
proof -
  let ?s = "init_state\<lparr>messages := [user_message 2 ''a'', user_message 4 ''b'',
                                    bot_message 5 (JStr ''Failed to send message.'')],
                       error := JStr ''Failed to send message.'', inflight := [''b'']\<rparr>"
  have "run any_event init_state (enter_twice @ [(5, GatewayAnswer 0 FetchRejected)]) = Some ?s"
    by (simp add: enter_twice_def session_eval)
  then have "reach any_event ?s" by (rule run_reach [OF reach_init])
  then show ?thesis by (intro exI [of _ ?s]) (simp add: init_state_def)
qed

text \<open>
  C13. No dispatch leaves the typing indicator on for good: from any reachable state,
  once the gateway has answered every request in flight, whatever the answers, the
  indicator is off and nothing is in flight.
\<close>

theorem answers_drain_pending:
  assumes "reach any_event s" and "length rs = length (inflight s)"
  shows "\<exists>s'. run any_event s (map (\<lambda>r. (now, GatewayAnswer 0 r)) rs) = Some s'
               \<and> \<not> isBotThinking s' \<and> inflight s' = []"
  using drain [OF assms] by (simp add: any_event_def)

theorem answers_drain_pending_witness:
  "reach any_event (init_state\<lparr>messages := [user_message 2 ''a'', user_message 4 ''b''],
                               isBotThinking := True, inflight := [''a'', ''b'']\<rparr>) \<and>
   length [FetchRejected, Response True (Some (JObj []))] = length [''a'', ''b''] \<and>
   (\<exists>s'. run any_event (init_state\<lparr>messages := [user_message 2 ''a'', user_message 4 ''b''],
                                    isBotThinking := True, inflight := [''a'', ''b'']\<rparr>)
           (map (\<lambda>r. (9, GatewayAnswer 0 r)) [FetchRejected, Response True (Some (JObj []))])
         = Some s' \<and> \<not> isBotThinking s' \<and> inflight s' = [])"
proof -
  let ?s = "init_state\<lparr>messages := [user_message 2 ''a'', user_message 4 ''b''],
                       isBotThinking := True, inflight := [''a'', ''b'']\<rparr>"
  have "run any_event init_state enter_twice = Some ?s"
    by (simp add: enter_twice_def session_eval)
  then have r: "reach any_event ?s" by (rule run_reach [OF reach_init])
  have l: "length [FetchRejected, Response True (Some (JObj []))] = length (inflight ?s)"
    by simp
  show ?thesis using r answers_drain_pending [OF r l, of 9] by simp
qed

text \<open>
  C14. The transcript only grows: every event other than the clear button keeps all
  messages and their order, and appends after them.
\<close>

theorem ui_step_transcript_prefix:
  assumes "ui_step s now e = Some s'" and "e \<noteq> ClearClick"
  shows "prefix (messages s) (messages s')"
  using ui_step_messages [OF assms] by auto

theorem ui_step_transcript_prefix_witness:
  "ui_step (init_state\<lparr>messages := [user_message 2 ''a''], isBotThinking := True,
                       inflight := [''a'']\<rparr>) 5 (GatewayAnswer 0 FetchRejected) =
     Some (init_state\<lparr>messages := [user_message 2 ''a'',
                                   bot_message 5 (JStr ''Failed to send message.'')],
                      error := JStr ''Failed to send message.''\<rparr>) \<and>
   GatewayAnswer 0 FetchRejected \<noteq> ClearClick \<and>
   prefix [user_message 2 ''a''] [user_message 2 ''a'', bot_message 5 (JStr ''Failed to send message.'')]"
proof -
  let ?s = "init_state\<lparr>messages := [user_message 2 ''a''], isBotThinking := True,
                       inflight := [''a'']\<rparr>"
  let ?t = "init_state\<lparr>messages := [user_message 2 ''a'',
                                    bot_message 5 (JStr ''Failed to send message.'')],
                       error := JStr ''Failed to send message.''\<rparr>"
  have st: "ui_step ?s 5 (GatewayAnswer 0 FetchRejected) = Some ?t"
    by (simp add: session_eval)
  have "GatewayAnswer 0 FetchRejected \<noteq> ClearClick" by simp
  with st show ?thesis using ui_step_transcript_prefix [OF st] by (simp add: init_state_def)
qed

text \<open>
  C15. As long as the transcript is not cleared, every user message belongs to exactly
  one dispatch, answered or in flight: the user messages are as many as the bot
  messages plus the requests in flight.
\<close>

theorem no_clear_dispatch_count:
  assumes "reach without_clear s"
  shows "count_sender User (messages s) = count_sender Bot (messages s) + length (inflight s)"
  using reach_dispatch_count_inv [OF assms] by (simp add: dispatch_count_inv_def)

theorem no_clear_dispatch_count_witness:
  "reach without_clear (init_state\<lparr>messages := [user_message 2 ''a'', user_message 4 ''b''],
                                   isBotThinking := True, inflight := [''a'', ''b'']\<rparr>) \<and>
   count_sender User [user_message 2 ''a'', user_message 4 ''b''] =
     count_sender Bot [user_message 2 ''a'', user_message 4 ''b''] + length [''a'', ''b'']"
proof -
  let ?s = "init_state\<lparr>messages := [user_message 2 ''a'', user_message 4 ''b''],
                       isBotThinking := True, inflight := [''a'', ''b'']\<rparr>"
  have "run without_clear init_state enter_twice = Some ?s"
    by (simp add: enter_twice_def session_eval)
  then have r: "reach without_clear ?s" by (rule run_reach [OF reach_init])
  show ?thesis using r no_clear_dispatch_count [OF r] by simp
qed

text \<open>
  C16. Clearing the chat does not cancel a request in flight: its answer is appended to
  the new, empty transcript, which then opens with a tutor message that answers a user
  message no longer shown.
\<close>

theorem stale_reply_after_clear:
  "\<exists>s. reach any_event s \<and> count_sender User (messages s) = 0
       \<and> count_sender Bot (messages s) = 1 \<and> inflight s = []"
proof -
  let ?s = "init_state\<lparr>messages := [bot_message 4 (JStr ''Bonjour'')]\<rparr>"
  have "run any_event init_state
     [(1, InputChange ''a''), (2, KeyDown ''Enter'' False), (3, ClearClick),
      (4, GatewayAnswer 0 (Response True (Some (JObj [(''reply'', JStr ''Bonjour'')]))))] = Some ?s"
    by (simp add: session_eval)
  then have "reach any_event ?s" by (rule run_reach [OF reach_init])
  then show ?thesis by (intro exI [of _ ?s]) (simp add: session_eval)
qed

text \<open>
  C23. Every user message in a reachable transcript holds a non-empty string that is
  its own trim: the guard and the trim of \<open>handleSendMessage\<close> hold for every message
  it ever appended.
\<close>

theorem reach_user_messages_trimmed:
  assumes "reach any_event s" and "m \<in> set (messages s)" and "sender m = User"
  shows "\<exists>t. msg_text m = JStr t \<and> t \<noteq> [] \<and> js_trim t = t"
  using reach_session_inv [OF assms(1)] assms(2,3)
  by (auto simp: session_inv_def user_msgs_trimmed_def list_all_iff)

theorem reach_user_messages_trimmed_witness:
  "reach any_event (init_state\<lparr>messages := [user_message 2 ''a''], isBotThinking := True,
                                inflight := [''a'']\<rparr>) \<and>
   user_message 2 ''a'' \<in> set [user_message 2 ''a''] \<and> sender (user_message 2 ''a'') = User \<and>
   (\<exists>t. msg_text (user_message 2 ''a'') = JStr t \<and> t \<noteq> [] \<and> js_trim t = t)"
proof -
  let ?s = "init_state\<lparr>messages := [user_message 2 ''a''], isBotThinking := True,
                       inflight := [''a'']\<rparr>"
  have "run any_event init_state (take 2 enter_twice) = Some ?s"
    by (simp add: enter_twice_def session_eval)
  then have r: "reach any_event ?s" by (rule run_reach [OF reach_init])
  have m: "user_message 2 ''a'' \<in> set (messages ?s)" by simp
  have u: "sender (user_message 2 ''a'') = User" by (simp add: user_message_def)
  show ?thesis using r m u reach_user_messages_trimmed [OF r m u] by simp
qed

text \<open>
  C25. Because two requests can be in flight, the gateway can settle them out of
  order: the request sent second is answered first while the first is still in flight,
  so the tutor's first message follows both user messages and answers the second one.
  The ordering guarantee of the specification (answers applied in the order the
  requests were issued) rests on the single-flight discipline that Enter breaks.
\<close>

theorem enter_key_out_of_order_answer:
  "\<exists>s. reach any_event s \<and> inflight s = [''a'']
       \<and> map sender (messages s) = [User, User, Bot]
       \<and> map msg_text (messages s) = [JStr ''a'', JStr ''b'', JStr ''Reply to b'']"
proof -
  let ?s = "init_state\<lparr>messages := [user_message 2 ''a'', user_message 4 ''b'',
                                    bot_message 5 (JStr ''Reply to b'')],
                       inflight := [''a'']\<rparr>"
  have "run any_event init_state
     (enter_twice @ [(5, GatewayAnswer 1 (Response True (Some (JObj [(''reply'', JStr ''Reply to b'')]))))])
     = Some ?s"
    by (simp add: enter_twice_def session_eval)
  then have "reach any_event ?s" by (rule run_reach [OF reach_init])
  then show ?thesis by (intro exI [of _ ?s]) (simp add: init_state_def handler_defs)
qed


text \<open>
  C31. Bounds of one event: it appends at most one message to the transcript, and it
  issues or settles at most one request, so the number in flight changes by at most one.
\<close>

theorem ui_step_bounds:
  assumes "ui_step s now e = Some s'"
  shows "length (messages s') \<le> length (messages s) + 1 \<and>
         length (inflight s') \<le> length (inflight s) + 1 \<and>
         length (inflight s) \<le> length (inflight s') + 1"
  using assms by (cases rule: ui_step_cases) auto

theorem ui_step_bounds_witness:
  "ui_step (init_state\<lparr>newMessage := ''a''\<rparr>) 1 SendClick =
     Some (init_state\<lparr>messages := [user_message 1 ''a''], isBotThinking := True,
                      inflight := [''a'']\<rparr>) \<and>
   length [user_message 1 ''a''] \<le> length (messages (init_state\<lparr>newMessage := ''a''\<rparr>)) + 1 \<and>
   length [''a''] \<le> length (inflight (init_state\<lparr>newMessage := ''a''\<rparr>)) + 1 \<and>
   length (inflight (init_state\<lparr>newMessage := ''a''\<rparr>)) \<le> length [''a''] + 1"
proof -
  have st: "ui_step (init_state\<lparr>newMessage := ''a''\<rparr>) 1 SendClick =
     Some (init_state\<lparr>messages := [user_message 1 ''a''], isBotThinking := True,
                      inflight := [''a'']\<rparr>)"
    by (simp add: session_eval)
  show ?thesis using st ui_step_bounds [OF st] by simp
qed

end
