(* ===== verification/Abstract.thy ===== *)
theory Abstract
  imports Dispatch
begin

text \<open>
  The contract of the Conversation Session Protocol as the specification states it,
  independently of React and of JavaScript values: the \<open>ConversationState\<close> of the
  spec (transcript of sender and text, pending flag, optional last error), the
  operations \<open>send\<close> (steps 1--3: trim, ignore empty input, optimistic append, set
  pending), the completion of a dispatch by the classified outcome of the gateway call
  (steps 5--6), \<open>reset\<close> and \<open>setError\<close>. The strings the spec leaves open (the generic
  failure text, the fallback text) are taken from the code. \<open>abs_state\<close> maps the
  component's state onto it: a message to its sender and the string React renders,
  \<open>isBotThinking\<close> to pending, a truthy error to the last error. \<open>classify\<close> is the
  classification the spec (section 6) gives a concrete answer of the gateway.
\<close>

section \<open>The specification's state and operations\<close>

record conv_state =
  transcript :: "(sender \<times> string) list"
  pending :: bool
  lastError :: "string option"

datatype gateway_outcome =
    TransportFailure
  | GatewayError "string option"
  | Success "string option"

definition spec_send :: "string \<Rightarrow> conv_state \<Rightarrow> conv_state" where
  "spec_send raw c =
     (if js_trim raw = [] then c
      else c\<lparr>transcript := transcript c @ [(User, js_trim raw)], pending := True\<rparr>)"

definition spec_description :: "string option \<Rightarrow> string" where
  "spec_description d = (case d of Some e \<Rightarrow> (if e = [] then ''Unknown error'' else e)
                                  | None \<Rightarrow> ''Unknown error'')"

fun spec_complete :: "gateway_outcome \<Rightarrow> conv_state \<Rightarrow> conv_state" where
  "spec_complete TransportFailure c =
     c\<lparr>transcript := transcript c @ [(Bot, ''Failed to send message.'')], pending := False,
       lastError := Some ''Failed to send message.''\<rparr>"
| "spec_complete (GatewayError d) c =
     c\<lparr>transcript := transcript c @ [(Bot, ''Error: '' @ spec_description d)], pending := False,
       lastError := Some (spec_description d)\<rparr>"
| "spec_complete (Success r) c =
     c\<lparr>transcript := transcript c @
         [(Bot, (case r of Some t \<Rightarrow> (if t = [] then ''No response from the tutor.'' else t)
                          | None \<Rightarrow> ''No response from the tutor.''))],
       pending := False\<rparr>"

definition spec_reset :: "conv_state \<Rightarrow> conv_state" where
  "spec_reset c = c\<lparr>transcript := [], lastError := None\<rparr>"

definition spec_setError :: "string option \<Rightarrow> conv_state \<Rightarrow> conv_state" where
  "spec_setError e c = c\<lparr>lastError := e\<rparr>"

definition spec_init :: conv_state where
  "spec_init = \<lparr>transcript = [], pending = False, lastError = None\<rparr>"

text \<open>
  The specification's state machine (sections 4.2 and 5): a send is issued only while no
  dispatch is pending, a dispatch completes only while one is, and reset and the
  dismissal of the error are always possible.
\<close>

inductive spec_reach :: "conv_state \<Rightarrow> bool" where
  spec_reach_init: "spec_reach spec_init"
| spec_reach_send: "spec_reach c \<Longrightarrow> \<not> pending c \<Longrightarrow> spec_reach (spec_send raw c)"
| spec_reach_complete: "spec_reach c \<Longrightarrow> pending c \<Longrightarrow> spec_reach (spec_complete out c)"
| spec_reach_reset: "spec_reach c \<Longrightarrow> spec_reach (spec_reset c)"
| spec_reach_dismiss: "spec_reach c \<Longrightarrow> spec_reach (spec_setError None c)"

section \<open>Abstraction and classification\<close>

definition abs_state :: "chat_state \<Rightarrow> conv_state" where
  "abs_state s =
     \<lparr>transcript = map (\<lambda>m. (sender m, js_to_string (msg_text m))) (messages s),
      pending = isBotThinking s,
      lastError = (if js_truthy (error s) then Some (js_to_string (error s)) else None)\<rparr>"

fun field_string :: "jsval \<Rightarrow> string \<Rightarrow> string option" where
  "field_string (JObj fs) k = (case obj_lookup fs k of JStr t \<Rightarrow> Some t | _ \<Rightarrow> None)"
| "field_string _ k = None"

fun classify :: "fetch_result \<Rightarrow> gateway_outcome" where
  "classify FetchRejected = TransportFailure"
| "classify (Response ok None) = TransportFailure"
| "classify (Response False (Some d)) = GatewayError (field_string d ''error'')"
| "classify (Response True (Some d)) = Success (field_string d ''reply'')"

text \<open>
  The answers on which the code and the contract can be compared field for field: the
  error field of a failed response is a non-empty string, and the reply of a successful
  one is a string or absent.
\<close>

fun conformant :: "fetch_result \<Rightarrow> bool" where
  "conformant FetchRejected = True"
| "conformant (Response ok None) = True"
| "conformant (Response False (Some (JObj fs))) =
     (case obj_lookup fs ''error'' of JStr e \<Rightarrow> e \<noteq> [] | _ \<Rightarrow> False)"
| "conformant (Response True (Some (JObj fs))) =
     (case obj_lookup fs ''reply'' of JUndefined \<Rightarrow> True | JStr _ \<Rightarrow> True | _ \<Rightarrow> False)"
| "conformant (Response ok (Some _)) = False"

section \<open>Lemmas\<close>

lemma abs_state_append_message:
  "abs_state (s\<lparr>messages := messages s @ [m]\<rparr>) =
     (abs_state s)\<lparr>transcript := transcript (abs_state s) @ [(sender m, js_to_string (msg_text m))]\<rparr>"
  by (simp add: abs_state_def)

end
