(* ===== verification/Request.thy ===== *)
theory Request
  imports Dispatch
begin

text \<open>
  The request \<open>sendMessageToGemini\<close> issues (lines 25--29 of
  \<open>src/src/components/ChatInterface.jsx\<close>): a \<open>POST\<close> to the gateway's address with a
  JSON content type and the body \<open>JSON.stringify({ message })\<close>. \<open>json_stringify\<close> is
  ECMAScript's \<open>JSON.stringify\<close> (ECMA-262, SerializeJSONProperty and QuoteJSONString)
  on the values of \<open>JsValue\<close>: \<open>undefined\<close> has no text (an array prints it as
  \<open>null\<close>, an object omits the entry), a string is quoted with the short escapes for
  quote, backslash and the five named control characters and \<open>\\u00xx\<close> with
  lower-case hex digits for the other control characters. Objects are printed entry by
  entry, which is \<open>JSON.stringify\<close>'s order for objects whose keys are distinct and
  not array indices, as the object literal of line 28 is. The gateway's reading of the
  body (section 6 of the specification: one field carrying the message) is a JSON string
  reader \<open>json_chars\<close> and a reader of a one-field object, \<open>read_single_field\<close>.
\<close>

section \<open>JSON text\<close>

definition hex_digit :: "nat \<Rightarrow> char" where
  "hex_digit d = (if d < 10 then char_of (48 + d) else char_of (87 + d))"

definition json_escape_char :: "char \<Rightarrow> string" where
  "json_escape_char c =
     (if c = CHR 0x22 then [CHR 0x5C, CHR 0x22]
      else if c = CHR 0x5C then [CHR 0x5C, CHR 0x5C]
      else if c = CHR 0x08 then [CHR 0x5C, CHR ''b'']
      else if c = CHR 0x0C then [CHR 0x5C, CHR ''f'']
      else if c = CHR 0x0A then [CHR 0x5C, CHR ''n'']
      else if c = CHR 0x0D then [CHR 0x5C, CHR ''r'']
      else if c = CHR 0x09 then [CHR 0x5C, CHR ''t'']
      else if of_char c < (32::nat) then
        [CHR 0x5C, CHR ''u'', CHR ''0'', CHR ''0'', hex_digit (of_char c div 16), hex_digit (of_char c mod 16)]
      else [c])"

definition json_quote :: "string \<Rightarrow> string" where
  "json_quote s = CHR 0x22 # concat (map json_escape_char s) @ [CHR 0x22]"

fun json_stringify :: "jsval \<Rightarrow> string option" where
  "json_stringify JUndefined = None"
| "json_stringify JNull = Some ''null''"
| "json_stringify (JBool b) = Some (if b then ''true'' else ''false'')"
| "json_stringify (JNum n) = Some (int_decimal n)"
| "json_stringify (JStr s) = Some (json_quote s)"
| "json_stringify (JArr vs) =
     Some (CHR ''['' # js_join (map (\<lambda>v. case json_stringify v of None \<Rightarrow> ''null'' | Some t \<Rightarrow> t) vs)
           @ '']'')"
| "json_stringify (JObj fs) =
     Some (CHR ''{'' # js_join (concat (map (\<lambda>kv. case json_stringify (snd kv) of None \<Rightarrow> []
                                           | Some t \<Rightarrow> [json_quote (fst kv) @ CHR '':'' # t]) fs))
           @ ''}'')"

section \<open>Reading JSON text\<close>

definition hex_val :: "char \<Rightarrow> nat option" where
  "hex_val c =
     (let n = of_char c :: nat in
      if 48 \<le> n \<and> n \<le> 57 then Some (n - 48)
      else if 97 \<le> n \<and> n \<le> 102 then Some (n - 87)
      else if 65 \<le> n \<and> n \<le> 70 then Some (n - 55)
      else None)"

definition hex4 :: "char \<Rightarrow> char \<Rightarrow> char \<Rightarrow> char \<Rightarrow> nat option" where
  "hex4 a b c d =
     (case (hex_val a, hex_val b, hex_val c, hex_val d) of
        (Some w, Some x, Some y, Some z) \<Rightarrow> Some (((w * 16 + x) * 16 + y) * 16 + z)
      | _ \<Rightarrow> None)"

definition simple_unescape :: "char \<Rightarrow> char option" where
  "simple_unescape e =
     (if e = CHR 0x22 then Some CHR 0x22
      else if e = CHR 0x5C then Some CHR 0x5C
      else if e = CHR ''/'' then Some CHR ''/''
      else if e = CHR ''b'' then Some (CHR 0x08)
      else if e = CHR ''f'' then Some (CHR 0x0C)
      else if e = CHR ''n'' then Some (CHR 0x0A)
      else if e = CHR ''r'' then Some (CHR 0x0D)
      else if e = CHR ''t'' then Some (CHR 0x09)
      else None)"

definition cons_fst :: "char \<Rightarrow> (string \<times> string) option \<Rightarrow> (string \<times> string) option" where
  "cons_fst c r = map_option (\<lambda>(t, rest). (c # t, rest)) r"

text \<open>
  The characters of a JSON string after its opening quote, up to the closing quote, and
  the input after it. A code point above 255 in a \<open>\\u\<close> escape is outside the 8-bit
  characters of the model and is refused.
\<close>

fun json_chars :: "string \<Rightarrow> (string \<times> string) option" where
  "json_chars [] = None"
| "json_chars (c # cs) =
     (if c = CHR 0x22 then Some ([], cs)
      else if c = CHR 0x5C then
        (case cs of
           [] \<Rightarrow> None
         | e # cs' \<Rightarrow>
             (if e = CHR ''u'' then
                (case cs' of
                   h1 # h2 # h3 # h4 # cs'' \<Rightarrow>
                     (case hex4 h1 h2 h3 h4 of
                        Some n \<Rightarrow> (if n < 256 then cons_fst (char_of n) (json_chars cs'') else None)
                      | None \<Rightarrow> None)
                 | _ \<Rightarrow> None)
              else (case simple_unescape e of
                      Some d \<Rightarrow> cons_fst d (json_chars cs')
                    | None \<Rightarrow> None)))
      else if of_char c < (32::nat) then None
      else cons_fst c (json_chars cs))"

definition json_string :: "string \<Rightarrow> (string \<times> string) option" where
  "json_string s = (case s of c # cs \<Rightarrow> (if c = CHR 0x22 then json_chars cs else None) | [] \<Rightarrow> None)"

text \<open>
  A body holding one object with one string-valued field, \<open>{"k":"v"}\<close>, without
  whitespace, as \<open>JSON.stringify\<close> prints it.
\<close>

definition read_single_field :: "string \<Rightarrow> (string \<times> string) option" where
  "read_single_field b =
     (case b of
        c # r \<Rightarrow>
          (if c = CHR ''{'' then
             (case json_string r of
                Some (k, c' # r') \<Rightarrow>
                  (if c' = CHR '':'' then
                     (case json_string r' of
                        Some (v, rest) \<Rightarrow> (if rest = ''}'' then Some (k, v) else None)
                      | None \<Rightarrow> None)
                   else None)
              | _ \<Rightarrow> None)
           else None)
      | [] \<Rightarrow> None)"

section \<open>The request\<close>

record fetch_request =
  url :: string
  req_method :: string
  content_type :: string
  req_body :: "string option"

text \<open>
  The arguments of \<open>fetch\<close> in lines 25--29. A body of \<open>None\<close> would be the
  \<open>undefined\<close> of \<open>JSON.stringify\<close>, which \<open>fetch\<close> sends as no body.
\<close>

definition gemini_request :: "string \<Rightarrow> fetch_request" where
  "gemini_request message =
     \<lparr>url = ''http://localhost:3000/api/gemini'', req_method = ''POST'',
      content_type = ''application/json'',
      req_body = json_stringify (JObj [(''message'', JStr message)])\<rparr>"

text \<open>
  What the gateway takes from a request (section 6): a \<open>POST\<close> with a JSON body whose
  one field \<open>message\<close> carries the text.
\<close>

definition gateway_message :: "fetch_request \<Rightarrow> string option" where
  "gateway_message r =
     (if req_method r = ''POST'' \<and> content_type r = ''application/json'' then
        (case req_body r of
           Some b \<Rightarrow> (case read_single_field b of
                        Some (k, v) \<Rightarrow> (if k = ''message'' then Some v else None)
                      | None \<Rightarrow> None)
         | None \<Rightarrow> None)
      else None)"

text \<open>The requests a state has issued and not yet seen answered, oldest first.\<close>

definition issued_requests :: "chat_state \<Rightarrow> fetch_request list" where
  "issued_requests s = map gemini_request (inflight s)"

section \<open>Lemmas\<close>

lemma hex_val_hex_digit: "d < 16 \<Longrightarrow> hex_val (hex_digit d) = Some d"
  by (auto simp: hex_val_def hex_digit_def Let_def)

lemma hex4_escape:
  assumes "n < 32"
  shows "hex4 (CHR ''0'') (CHR ''0'') (hex_digit (n div 16)) (hex_digit (n mod 16)) = Some n"
proof -
  have "n div 16 < 16" "n mod 16 < 16" using assms by simp_all
  then have "hex_val (hex_digit (n div 16)) = Some (n div 16)"
    and "hex_val (hex_digit (n mod 16)) = Some (n mod 16)"
    by (simp_all add: hex_val_hex_digit)
  moreover have "hex_val (CHR ''0'') = Some 0" by (simp add: hex_val_def)
  ultimately show ?thesis by (simp add: hex4_def)
qed

lemma json_chars_escape_char:
  "json_chars (json_escape_char c @ xs) = cons_fst c (json_chars xs)"
proof (cases "c \<in> {CHR 0x22, CHR 0x5C, CHR 0x08, CHR 0x0C, CHR 0x0A, CHR 0x0D, CHR 0x09}")
  case True
  then show ?thesis by (auto simp: json_escape_char_def simple_unescape_def)
next
  case False
  show ?thesis
  proof (cases "of_char c < (32::nat)")
    case True
    then have "hex4 (CHR ''0'') (CHR ''0'') (hex_digit (of_char c div 16)) (hex_digit (of_char c mod 16))
               = Some (of_char c)"
      by (rule hex4_escape)
    with True False show ?thesis by (simp add: json_escape_char_def)
  next
    case ge: False
    have "c \<noteq> CHR 0x22" "c \<noteq> CHR 0x5C" using False by auto
    with ge False show ?thesis by (simp add: json_escape_char_def)
  qed
qed

lemma json_chars_escaped:
  "json_chars (concat (map json_escape_char s) @ CHR 0x22 # rest) = Some (s, rest)"
  by (induction s) (simp_all add: json_chars_escape_char cons_fst_def)

lemma json_string_quote: "json_string (json_quote s @ rest) = Some (s, rest)"
  by (simp add: json_string_def json_quote_def json_chars_escaped)

lemma gateway_message_gemini_request: "gateway_message (gemini_request m) = Some m"
proof -
  have "read_single_field (CHR ''{'' # json_quote ''message'' @ CHR '':'' # json_quote m @ ''}'')
        = Some (''message'', m)"
    using json_string_quote [of "''message''" "CHR '':'' # json_quote m @ ''}''"]
          json_string_quote [of m "''}''"]
    by (simp add: read_single_field_def)
  then show ?thesis unfolding gateway_message_def gemini_request_def by simp
qed

section \<open>Properties\<close>

text \<open>
  C28. The request of a send carries the message: the gateway reads back from the request
  \<open>sendMessageToGemini\<close> issues exactly the text it was given, whatever characters it
  contains, and the request goes to the configured address.
\<close>

theorem gemini_request_roundtrip:
  "gateway_message (gemini_request m) = Some m \<and>
   url (gemini_request m) = ''http://localhost:3000/api/gemini''"
  by (rule conjI [OF gateway_message_gemini_request]) (simp add: gemini_request_def)

end
