(* ===== verification/ReactBatch.thy ===== *)
theory ReactBatch
  imports Store
begin

text \<open>
  How React applies the setter calls of one event. A setter call of a \<open>useState\<close>
  hook does not change the state at once: it queues an update on its hook, either a new
  value (\<open>setError("")\<close>) or an updater function (\<open>setMessages((prev) => [...prev, m])\<close>),
  and React, when it renders next, runs each hook's queue in order over the hook's
  committed value (React's \<open>processUpdateQueue\<close>; React 18 batches the calls of an event
  handler and those after an \<open>await\<close> alike). A handler is a closure over the values of
  the render that created it, so an update may depend on them; \<open>enqueue r\<close> translates
  the setter calls of the source made under the rendered state \<open>r\<close>. \<open>fetch\<close> is
  not a hook: the request leaves at once. \<open>react_commit\<close> is this batched semantics;
  the development's \<open>apply_ops\<close> applies the calls one after the other to the current
  state, and the theorem of this theory is that both agree, whatever the rendered state
  the closures saw.
\<close>

section \<open>Update queues\<close>

datatype 'a hook_update = SetValue 'a | Update "'a \<Rightarrow> 'a"

fun apply_update :: "'a hook_update \<Rightarrow> 'a \<Rightarrow> 'a" where
  "apply_update (SetValue v) _ = v"
| "apply_update (Update f) v = f v"

record pending_updates =
  q_messages :: "message list hook_update list"
  q_newMessage :: "string hook_update list"
  q_thinking :: "bool hook_update list"
  q_error :: "jsval hook_update list"
  q_fetches :: "string list"

definition no_updates :: pending_updates where
  "no_updates = \<lparr>q_messages = [], q_newMessage = [], q_thinking = [], q_error = [], q_fetches = []\<rparr>"

text \<open>
  One setter call, made by a handler of the render showing \<open>r\<close>: every append of the
  source is the updater form \<open>setMessages((prev) => [...prev, m])\<close> (lines 34--41,
  48--51, 53--60, 64--71, 79--82), the other calls pass a value.
\<close>

fun enqueue :: "chat_state \<Rightarrow> store_op \<Rightarrow> pending_updates \<Rightarrow> pending_updates" where
  "enqueue r (AppendMessage m) b = b\<lparr>q_messages := q_messages b @ [Update (\<lambda>prev. prev @ [m])]\<rparr>"
| "enqueue r ClearMessages b = b\<lparr>q_messages := q_messages b @ [SetValue []]\<rparr>"
| "enqueue r (SetNewMessage v) b = b\<lparr>q_newMessage := q_newMessage b @ [SetValue v]\<rparr>"
| "enqueue r (SetBotThinking v) b = b\<lparr>q_thinking := q_thinking b @ [SetValue v]\<rparr>"
| "enqueue r (SetError v) b = b\<lparr>q_error := q_error b @ [SetValue v]\<rparr>"
| "enqueue r (Fetch msg) b = b\<lparr>q_fetches := q_fetches b @ [msg]\<rparr>"

text \<open>The next render: each hook's queue runs over its committed value.\<close>

definition commit :: "pending_updates \<Rightarrow> chat_state \<Rightarrow> chat_state" where
  "commit b s =
     s\<lparr>messages := fold apply_update (q_messages b) (messages s),
       newMessage := fold apply_update (q_newMessage b) (newMessage s),
       isBotThinking := fold apply_update (q_thinking b) (isBotThinking s),
       error := fold apply_update (q_error b) (error s),
       inflight := inflight s @ q_fetches b\<rparr>"

definition react_commit :: "chat_state \<Rightarrow> store_op list \<Rightarrow> chat_state \<Rightarrow> chat_state" where
  "react_commit r ops s = commit (fold (enqueue r) ops no_updates) s"

text \<open>
  The \<open>useEffect\<close> of lines 10--17 depends on \<open>[messages]\<close>: it runs after a commit
  in which the array changed identity. Every queued update of \<open>messages\<close> yields a fresh
  array (a spread or a literal \<open>[]\<close>), so the effect runs exactly when the batch queued
  one.
\<close>

definition scroll_effect_runs :: "chat_state \<Rightarrow> store_op list \<Rightarrow> bool" where
  "scroll_effect_runs r ops = (q_messages (fold (enqueue r) ops no_updates) \<noteq> [])"

section \<open>Lemmas\<close>

lemma commit_no_updates [simp]: "commit no_updates s = s"
  by (simp add: commit_def no_updates_def)

lemma commit_enqueue: "commit (enqueue r op b) s = apply_op op (commit b s)"
  by (cases op) (simp_all add: commit_def)

lemma commit_fold_enqueue:
  "commit (fold (enqueue r) ops b) s = apply_ops ops (commit b s)"
  by (induction ops arbitrary: b) (simp_all add: commit_enqueue)

lemma q_messages_fold_enqueue:
  "q_messages (fold (enqueue r) ops b) = [] \<longleftrightarrow> q_messages b = [] \<and> \<not> clears ops \<and> appended ops = []"
proof (induction ops arbitrary: b)
  case Nil
  then show ?case by simp
next
  case (Cons op ops)
  then show ?case by (cases op) auto
qed

lemma appended_append [simp]: "appended (xs @ ys) = appended xs @ appended ys"
  by (induction xs rule: appended.induct) simp_all

lemma clears_append [simp]: "clears (xs @ ys) = (clears xs \<or> clears ys)"
  by (induction xs rule: clears.induct) simp_all

lemma scroll_effect_runs_iff:
  "scroll_effect_runs r ops \<longleftrightarrow> clears ops \<or> appended ops \<noteq> []"
  by (simp add: scroll_effect_runs_def q_messages_fold_enqueue no_updates_def)

text \<open>
  Applying the setter calls of a handler one after the other, as the development does,
  is what React's batched commit computes: this justifies reading every handler by
  \<open>apply_ops\<close>.
\<close>

lemma react_commit_eq_apply_ops: "react_commit r ops s = apply_ops ops s"
  by (simp add: react_commit_def commit_fold_enqueue)

end
