(* ===== verification/Clock.thy ===== *)
theory Clock
  imports Session
begin

text \<open>
  Sessions on a clock. Every message the component appends is stamped with
  \<open>new Date()\<close> at the moment of the append (lines 39, 50, 58, 69 and 81 of
  \<open>src/src/components/ChatInterface.jsx\<close>), which the step function receives as
  \<open>now\<close>. \<open>treach s t\<close> holds when \<open>s\<close> is reachable at time \<open>t\<close> by events whose
  times never go backwards, as the events of one browser session do.
\<close>

section \<open>Timed reachability\<close>

inductive treach :: "chat_state \<Rightarrow> timestamp \<Rightarrow> bool" where
  treach_init: "treach init_state t"
| treach_step: "treach s t \<Longrightarrow> t \<le> now \<Longrightarrow> ui_step s now e = Some s' \<Longrightarrow> treach s' now"

definition time_ordered :: "timestamp \<Rightarrow> chat_state \<Rightarrow> bool" where
  "time_ordered t s = (sorted (map timestamp (messages s)) \<and> list_all (\<lambda>m. timestamp m \<le> t) (messages s))"

section \<open>Lemmas\<close>

lemma treach_reach: "treach s t \<Longrightarrow> reach any_event s"
  by (induction rule: treach.induct) (auto simp: any_event_def intro: reach.intros)

lemma time_ordered_snoc:
  "time_ordered t s \<Longrightarrow> t \<le> now \<Longrightarrow> messages s' = messages s @ [m] \<Longrightarrow>
   timestamp m = now \<Longrightarrow> time_ordered now s'"
  by (auto simp: time_ordered_def sorted_append list_all_iff)

lemma time_ordered_mono:
  "time_ordered t s \<Longrightarrow> t \<le> now \<Longrightarrow> messages s' = messages s \<Longrightarrow> time_ordered now s'"
  by (auto simp: time_ordered_def list_all_iff)

lemma time_ordered_step:
  assumes "ui_step s now e = Some s'" and "time_ordered t s" and "t \<le> now"
  shows "time_ordered now s'"
  using assms(1)
proof (cases rule: ui_step_cases)
  case send
  then show ?thesis
    by (intro time_ordered_snoc [OF assms(2,3)]) (auto simp: user_message_def)
next
  case clear
  then show ?thesis by (simp add: time_ordered_def)
next
  case (answer i res v)
  then show ?thesis
    by (intro time_ordered_snoc [OF assms(2,3)]) (auto simp: bot_message_def)
qed (use assms(2,3) in \<open>auto intro: time_ordered_mono\<close>)

lemma treach_time_ordered: "treach s t \<Longrightarrow> time_ordered t s"
proof (induction rule: treach.induct)
  case (treach_init t)
  then show ?case by (simp add: time_ordered_def init_state_def)
next
  case (treach_step s t now e s')
  then show ?case by (blast intro: time_ordered_step)
qed

lemma run_treach:
  "treach s t \<Longrightarrow> sorted (t # map fst es) \<Longrightarrow> run any_event s es = Some s' \<Longrightarrow>
   treach s' (last (t # map fst es))"
proof (induction es arbitrary: s t)
  case Nil
  then show ?case by simp
next
  case (Cons x es)
  obtain now e where x: "x = (now, e)" by fastforce
  have p: "any_event s e" by (simp add: any_event_def)
  from Cons.prems(3) x p obtain s1 where st: "ui_step s now e = Some s1"
      and r: "run any_event s1 es = Some s'"
    by (auto split: option.splits)
  from Cons.prems(2) x have le: "t \<le> now" and so: "sorted (now # map fst es)" by simp_all
  have "treach s1 now" using Cons.prems(1) le st by (rule treach_step)
  from Cons.IH [OF this so r] x show ?case by simp
qed

section \<open>Properties\<close>

text \<open>
  C32. In every state reached by events in time order, the transcript is in time order:
  its timestamps never decrease from one message to the next, and none lies after the
  current time. A reply appended after a clear, or after further user messages sent
  while it was pending, keeps the order, since it is stamped when it arrives.
\<close>

theorem treach_transcript_sorted:
  assumes "treach s t"
  shows "sorted (map timestamp (messages s)) \<and> list_all (\<lambda>m. timestamp m \<le> t) (messages s)"
  using treach_time_ordered [OF assms] by (simp add: time_ordered_def)

theorem treach_transcript_sorted_witness:
  "treach (init_state\<lparr>messages := [user_message 2 ''a'', user_message 4 ''b''], isBotThinking := True,
                       inflight := [''a'', ''b'']\<rparr>) 4 \<and>
   sorted (map timestamp [user_message 2 ''a'', user_message 4 ''b'']) \<and>
   list_all (\<lambda>m. timestamp m \<le> (4::nat)) [user_message 2 ''a'', user_message 4 ''b'']"
proof -
  let ?s = "init_state\<lparr>messages := [user_message 2 ''a'', user_message 4 ''b''], isBotThinking := True,
                       inflight := [''a'', ''b'']\<rparr>"
  have ru: "run any_event init_state enter_twice = Some ?s"
    by (simp add: enter_twice_def session_eval)
  have so: "sorted (0 # map fst enter_twice)" by (simp add: enter_twice_def)
  have "treach ?s (last (0 # map fst enter_twice))"
    by (rule run_treach [OF treach_init so ru])
  then have r: "treach ?s 4" by (simp add: enter_twice_def)
  show ?thesis using r treach_transcript_sorted [OF r] by simp
qed

end
