(* ===== verification/Spec2Isabelle.thy ===== *)
theory Spec2Isabelle
  imports Session Abstract Request ReactBatch Clock
begin

text \<open>
  \<^bold>\<open>A verification development of the Odia tutor chat client.\<close>

  \<^emph>\<open>The program.\<close> The repository is a React single-page client. \<open>src/src/App.jsx\<close>
  only renders a heading and the \<open>ChatInterface\<close> component of
  \<open>src/src/components/ChatInterface.jsx\<close>, which holds all the logic: four state hooks
  (the transcript \<open>messages\<close>, the input \<open>newMessage\<close>, the typing flag
  \<open>isBotThinking\<close>, the toast text \<open>error\<close>), the handler \<open>handleSendMessage\<close> that
  trims the input, appends the user's message and starts the asynchronous
  \<open>sendMessageToGemini\<close>, which posts the text to the tutor gateway, classifies the
  answer (rejected fetch, error status, reply, no reply), appends the tutor's message
  and clears the typing flag in a \<open>finally\<close> clause; \<open>handleClearChat\<close>; and JSX
  whose bindings call these handlers (the send button is disabled while a reply is
  pending, Enter in the input is not).

  \<^emph>\<open>The theories.\<close>
  \<^item> \<open>Prelude\<close>: timestamps, the fact collections \<open>handler_defs\<close> and \<open>js_defs\<close>,
    and \<open>remove_nth\<close>, by which the network delivers one answer.
  \<^item> \<open>JsValue\<close>: the ECMAScript the component relies on, modelled from the language
    specification (values of \<open>JSON.parse\<close>, truthiness, \<open>||\<close>, property access that
    throws on \<open>null\<close>, template-literal \<open>ToString\<close>, \<open>String.prototype.trim\<close>), with
    the characterisation of \<open>js_trim\<close> (empty exactly on whitespace, no whitespace at
    either end, idempotent, the input is whitespace, the trim, whitespace).
  \<^item> \<open>Store\<close> (the Conversation State Store of the spec): the hooks as the record
    \<open>chat_state\<close> (lines 4--7) plus the requests in flight; each setter call as a
    \<open>store_op\<close>; \<open>apply_ops\<close> runs a handler's setter calls in order; lemmas give
    each field after a list of calls (appended messages, issued requests, last value).
  \<^item> \<open>Dispatch\<close> (the Dispatch Protocol): \<open>handleSendMessage_ops\<close> (lines 77--85),
    \<open>sendMessageToGemini\<close> split at its awaits into \<open>start_ops\<close> (lines 23--29) and
    \<open>settle_ops\<close> (lines 24--74: \<open>error_response_ops\<close>, \<open>reply_ops\<close>,
    \<open>catch_ops\<close>, then \<open>finally\<close>), \<open>sendMessageToGemini_settle\<close> applying the
    answer of the \<open>i\<close>-th request in flight, \<open>handleClearChat\<close>, \<open>dismissError\<close>.
    Claims C1--C8 and C17: one bot message and a cleared flag on every outcome,
    the behaviour of each branch, errors included.
  \<^item> \<open>View\<close>: the JSX (lines 92--221) as a \<open>view\<close> record, React's rule for valid
    children (\<open>renders\<close>), and the event bindings \<open>onInputChange\<close>,
    \<open>onKeyDown\<close>, \<open>onSendClick\<close>. Claims C19 and C24.
  \<^item> \<open>Session\<close>: events (user actions and gateway answers) and the step function
    \<open>ui_step\<close>; \<open>reach P\<close>, the states reachable under the events \<open>P\<close> admits, with
    invariants proved by rule induction from the case lemma \<open>ui_step_cases\<close>; \<open>run\<close>
    evaluates concrete event lists, which gives the witnesses and the reachable bad
    states. Claims C9--C16, C23, C25, C26 and C31.
  \<^item> \<open>Abstract\<close>: the specification's \<open>ConversationState\<close> and operations, the
    abstraction \<open>abs_state\<close> and the classification \<open>classify\<close> of a gateway answer;
    \<open>spec_reach\<close> is the specification's state machine (send only while not pending,
    completion only while pending, reset, dismissal). The root theory proves the
    refinement claims C20--C22 over them, C18: with sends only while no reply is pending
    and string answers, every reachable state abstracts to a state of that machine (each
    event is one of its steps or none), and C27: with
    string answers every reachable screen renders.
  \<^item> \<open>Request\<close>: the \<open>fetch\<close> of \<open>sendMessageToGemini\<close> (lines 25--29) as the record
    \<open>fetch_request\<close> built by \<open>gemini_request\<close>, whose body is
    \<open>JSON.stringify({ message })\<close>; \<open>json_stringify\<close> follows ECMA-262 and
    \<open>gateway_message\<close> is the gateway's reading of the body (spec section 6) by the JSON
    string reader \<open>json_chars\<close>. Claim C28 (round trip: the gateway reads back exactly
    the message, whatever characters it contains).
  \<^item> \<open>ReactBatch\<close>: React's semantics of setter calls, queued per hook as a value or an
    updater function and run on the next render; \<open>enqueue\<close> translates the handlers'
    calls. The lemma \<open>react_commit_eq_apply_ops\<close> shows that this batched commit equals
    \<open>apply_ops\<close>, which justifies the sequential reading of every handler above;
    \<open>scroll_effect_runs\<close> says when the auto-scroll \<open>useEffect\<close> (lines 10--17) runs.
  \<^item> \<open>Clock\<close>: sessions whose events come in time order (\<open>treach\<close>, the current time
    carried along); C32: the transcript is then in time order, since every message is
    stamped with \<open>new Date()\<close> when it is appended.
  \<^item> The root theory also proves the claims that span theories: C29 (every request in
    flight carries a non-empty trimmed message) and C30 (the transcript scrolls after
    every answer and clear, and after an accepted send). Session adds C31: one event
    appends at most one message and changes the requests in flight by at most one.

  \<^emph>\<open>Concurrency.\<close> JavaScript runs one handler at a time; \<open>sendMessageToGemini\<close>
  suspends at its awaits, and every setter call it makes after the request happens after
  its last await, so a dispatch is two atomic steps: the start inside the send event and
  the settling when the gateway answers. Requests in flight are a list, answered in any
  order and interleaved with any user events. No fuel or bound is needed: the source has
  no loop and no recursion (every handler is straight-line code), so there is no
  termination claim; the model's own recursions (\<open>nat_decimal\<close>, \<open>json_chars\<close>,
  \<open>js_join\<close>, \<open>run\<close>) are \<open>fun\<close>s with proved termination, and the event runs
  are finite lists.

  \<^emph>\<open>Findings.\<close> Enter bypasses the disabled send button (C11, C12: two requests in
  flight, the typing indicator off while one is pending; C25: answers settled out of
  request order); an unparseable or \<open>null\<close>
  error body is reported as a transport failure (C8); a missing error field yields the
  transcript text \<open>Error: undefined\<close> (C22); a clear does not cancel a request in
  flight (C16); a reply that is a JSON object is stored as the message and makes the
  render throw (C26). Guarding Enter by \<open>isBotThinking\<close>, as the send button is, would
  remove the first three: C10 shows that the component is single-flight when Enter is
  never pressed while a reply is pending.

  \<^emph>\<open>Not modelled.\<close> \<open>App.jsx\<close> renders a static heading around
  \<open>ChatInterface\<close> and adds no behaviour; the scrolling the effect of lines 10--17
  performs (only when it runs is modelled) and \<open>formatTimestamp\<close> (lines 19--20) touch only the DOM and the
  locale; styling is not modelled; the gateway itself is external and appears only
  through its reading of a request and its answers; JSON numbers are integers and
  strings are 8-bit, so \<open>trim\<close> removes the whitespace below 256 only and a \<open>\u\<close>
  escape above 255 is refused by the reader.

  \<^emph>\<open>Further work.\<close> The locale time format and Unicode beyond 8 bits remain outside
  the model. A later extension can model the generation counter the spec suggests
  against stale replies (C16).
\<close>

section \<open>Sessions whose gateway answers with strings\<close>

text \<open>
  The events of a session in which every answer of the gateway is \<open>conformant\<close>: its
  error description or reply, when present, is a string.
\<close>

definition conformant_answers :: "chat_state \<Rightarrow> ui_event \<Rightarrow> bool" where
  "conformant_answers s e = (case e of GatewayAnswer _ res \<Rightarrow> conformant res | _ \<Rightarrow> True)"

fun is_jstr :: "jsval \<Rightarrow> bool" where
  "is_jstr (JStr _) = True"
| "is_jstr _ = False"

definition gated_conformant :: "chat_state \<Rightarrow> ui_event \<Rightarrow> bool" where
  "gated_conformant s e = (keyboard_gated s e \<and> conformant_answers s e)"

definition strings_state :: "chat_state \<Rightarrow> bool" where
  "strings_state s = (list_all (\<lambda>m. is_jstr (msg_text m)) (messages s) \<and> is_jstr (error s))"

lemma conformant_outcome_strings:
  assumes "conformant res"
  shows "appended (outcome_ops now res) = [bot_message now v] \<Longrightarrow> is_jstr v"
    and "last_error (outcome_ops now res) = Some w \<Longrightarrow> is_jstr w"
  using assms
  by (cases res rule: conformant.cases;
      auto simp: handler_defs js_or_def split: jsval.splits sum.splits if_splits)+

lemma strings_state_step:
  assumes "ui_step s now e = Some s'" and "conformant_answers s e" and "strings_state s"
  shows "strings_state s'"
  using assms(1)
proof (cases rule: ui_step_cases)
  case (answer i res v)
  with assms(2) have c: "conformant res" by (simp add: conformant_answers_def)
  from answer c have "is_jstr v" by (blast intro: conformant_outcome_strings(1))
  moreover from c have "\<And>w. last_error (outcome_ops now res) = Some w \<Longrightarrow> is_jstr w"
    by (rule conformant_outcome_strings(2))
  ultimately show ?thesis using answer assms(3)
    by (auto simp: strings_state_def bot_message_def split: option.splits)
qed (use assms(3) in \<open>auto simp: strings_state_def user_message_def\<close>)

lemma reach_strings_state: "reach conformant_answers s \<Longrightarrow> strings_state s"
proof (induction rule: reach.induct)
  case reach_init
  then show ?case by (simp add: strings_state_def init_state_def)
next
  case (reach_step s e now s')
  then show ?case by (blast intro: strings_state_step)
qed

lemma strings_state_renders: "strings_state s \<Longrightarrow> renders (render s)"
proof -
  have ok: "is_jstr v \<Longrightarrow> react_child_ok v" for v by (cases v) simp_all
  assume "strings_state s"
  then show ?thesis
    by (auto simp: strings_state_def renders_def render_def render_bubble_def list_all_iff ok)
qed

lemma handlers_abs:
  "abs_state (handleSendMessage s now) = spec_send (newMessage s) (abs_state s) \<and>
   abs_state (handleClearChat s) = spec_reset (abs_state s) \<and>
   abs_state (dismissError s) = spec_setError None (abs_state s)"
  by (simp add: handleSendMessage_eq spec_send_def abs_state_def user_message_def
      handleClearChat_def handleClearChat_ops_eq spec_reset_def
      dismissError_def dismissError_ops_eq spec_setError_def)

lemma settle_abs:
  assumes "sendMessageToGemini_settle i now res s = Some s'" and "conformant res"
  shows "abs_state s' = spec_complete (classify res) (abs_state s)"
proof -
  from assms(1) have i: "i < length (inflight s)"
    by (simp add: sendMessageToGemini_settle_def split: if_splits)
  show ?thesis
  proof (cases res)
    case FetchRejected
    with assms i show ?thesis
      by (auto simp: sendMessageToGemini_settle_eq handler_defs abs_state_def)
  next
    case (Response ok body)
    show ?thesis
    proof (cases body)
      case None
      with Response assms i show ?thesis
        by (auto simp: sendMessageToGemini_settle_eq handler_defs abs_state_def)
    next
      case (Some d)
      with Response assms(2) obtain fs where d: "d = JObj fs"
        by (cases d) (auto split: bool.splits)
      with Response Some assms i show ?thesis
        by (cases ok)
           (auto simp: sendMessageToGemini_settle_eq handler_defs abs_state_def
              spec_description_def split: jsval.splits)
    qed
  qed
qed

lemma abs_state_input [simp]: "abs_state (s\<lparr>newMessage := v\<rparr>) = abs_state s"
  by (simp add: abs_state_def)

lemma spec_reach_step:
  assumes st: "ui_step s now e = Some s'" and g: "gated_conformant s e" and inv: "gated_inv s"
    and c: "spec_reach (abs_state s)"
  shows "spec_reach (abs_state s')"
proof (cases e)
  case (InputChange v)
  with st c show ?thesis by (auto simp: onInputChange_def)
next
  case (KeyDown k sh)
  with g have np: "\<not> pending (abs_state s)" by (simp add: gated_conformant_def keyboard_gated_def abs_state_def)
  from c np have "spec_reach (spec_send (newMessage s) (abs_state s))" by (rule spec_reach_send)
  with KeyDown st c show ?thesis by (auto simp: onKeyDown_def handlers_abs)
next
  case SendClick
  have "\<not> isBotThinking s \<Longrightarrow> spec_reach (spec_send (newMessage s) (abs_state s))"
    using c by (auto intro: spec_reach_send simp: abs_state_def)
  with SendClick st c show ?thesis by (auto simp: onSendClick_eq handlers_abs split: if_splits)
next
  case ClearClick
  with st c show ?thesis by (auto simp: handlers_abs intro: spec_reach_reset)
next
  case DismissClick
  with st c show ?thesis by (auto simp: handlers_abs intro: spec_reach_dismiss)
next
  case (GatewayAnswer i res)
  with st have settle: "sendMessageToGemini_settle i now res s = Some s'" by simp
  then have "inflight s \<noteq> []" by (auto simp: sendMessageToGemini_settle_def split: if_splits)
  with inv have p: "pending (abs_state s)" by (simp add: gated_inv_def abs_state_def)
  from g GatewayAnswer have "conformant res" by (simp add: gated_conformant_def conformant_answers_def)
  with settle have "abs_state s' = spec_complete (classify res) (abs_state s)" by (rule settle_abs)
  with c p show ?thesis by (auto intro: spec_reach_complete)
qed

lemma reach_spec_reach: "reach gated_conformant s \<Longrightarrow> spec_reach (abs_state s)"
proof (induction rule: reach.induct)
  case reach_init
  have "abs_state init_state = spec_init" by (simp add: abs_state_def init_state_def spec_init_def)
  then show ?case by (simp add: spec_reach_init)
next
  case (reach_step s e now s')
  have "reach keyboard_gated s"
    using reach_step.hyps(1) by (rule reach_mono) (simp add: gated_conformant_def)
  then have "gated_inv s" by (rule reach_gated_inv)
  with reach_step show ?case by (blast intro: spec_reach_step)
qed

section \<open>Refinement of the specification's contract\<close>

text \<open>
  C20. Sending, clearing and dismissing implement the specification's \<open>send\<close>,
  \<open>reset\<close> and \<open>setError(absent)\<close> on the abstract conversation state.
\<close>

theorem handlers_refine_spec:
  "abs_state (handleSendMessage s now) = spec_send (newMessage s) (abs_state s) \<and>
   abs_state (handleClearChat s) = spec_reset (abs_state s) \<and>
   abs_state (dismissError s) = spec_setError None (abs_state s)"
  by (rule handlers_abs)

text \<open>
  C21. On every answer whose fields are strings as the contract assumes (a non-empty
  error description on failure, a string or nothing as the reply), settling a dispatch
  implements the specification's completion of the classified outcome.
\<close>

theorem settle_refines_spec:
  assumes "sendMessageToGemini_settle i now res s = Some s'" and "conformant res"
  shows "abs_state s' = spec_complete (classify res) (abs_state s)"
  using assms by (rule settle_abs)

theorem settle_refines_spec_witness:
  "sendMessageToGemini_settle 0 9 (Response False (Some (JObj [(''error'', JStr ''rate limited'')])))
     (init_state\<lparr>isBotThinking := True, inflight := [''a'']\<rparr>) =
     Some (init_state\<lparr>messages := [bot_message 9 (JStr ''Error: rate limited'')],
                      error := JStr ''rate limited''\<rparr>) \<and>
   conformant (Response False (Some (JObj [(''error'', JStr ''rate limited'')]))) \<and>
   abs_state (init_state\<lparr>messages := [bot_message 9 (JStr ''Error: rate limited'')],
                         error := JStr ''rate limited''\<rparr>) =
   spec_complete (GatewayError (Some ''rate limited''))
     (abs_state (init_state\<lparr>isBotThinking := True, inflight := [''a'']\<rparr>))"
proof -
  let ?r = "Response False (Some (JObj [(''error'', JStr ''rate limited'')]))"
  let ?s = "init_state\<lparr>isBotThinking := True, inflight := [''a'']\<rparr>"
  let ?t = "init_state\<lparr>messages := [bot_message 9 (JStr ''Error: rate limited'')],
                       error := JStr ''rate limited''\<rparr>"
  have st: "sendMessageToGemini_settle 0 9 ?r ?s = Some ?t"
    by (simp add: sendMessageToGemini_settle_eq handler_defs init_state_def remove_nth_def)
  have c: "conformant ?r" by simp
  show ?thesis using st c settle_refines_spec [OF st c] by simp
qed

text \<open>
  C18. Refinement of the specification's state machine: as long as the user sends only
  while no reply is pending (as the send button enforces) and the gateway's fields are
  strings, every reachable state of the component is, under the abstraction, a state the
  specification's machine reaches; every event is a step of that machine or no step.
\<close>

theorem session_refines_spec_machine:
  assumes "reach gated_conformant s"
  shows "spec_reach (abs_state s)"
  using assms by (rule reach_spec_reach)

theorem session_refines_spec_machine_witness:
  "reach gated_conformant (init_state\<lparr>messages := [user_message 2 ''a'', bot_message 3 (JStr ''Bonjour'')]\<rparr>) \<and>
   spec_reach (abs_state (init_state\<lparr>messages := [user_message 2 ''a'', bot_message 3 (JStr ''Bonjour'')]\<rparr>))"
proof -
  let ?r = "Response True (Some (JObj [(''reply'', JStr ''Bonjour'')]))"
  let ?s = "init_state\<lparr>messages := [user_message 2 ''a'', bot_message 3 (JStr ''Bonjour'')]\<rparr>"
  have "run gated_conformant init_state
          [(1, InputChange ''a''), (2, KeyDown ''Enter'' False), (3, GatewayAnswer 0 ?r)] = Some ?s"
    by (simp add: session_eval gated_conformant_def conformant_answers_def)
  then have r: "reach gated_conformant ?s" by (rule run_reach [OF reach_init])
  show ?thesis using r session_refines_spec_machine [OF r] by simp
qed

text \<open>
  C22. Without that assumption the refinement fails: a failed response whose body has no
  \<open>error\<close> field sets the error to \<open>Unknown error\<close>, as the contract says, but the
  transcript receives \<open>Error: undefined\<close> instead of a message embedding that
  description.
\<close>

theorem settle_missing_error_field_diverges:
  "\<exists>s'. sendMessageToGemini_settle 0 9 (Response False (Some (JObj [])))
          (init_state\<lparr>isBotThinking := True, inflight := [''a'']\<rparr>) = Some s' \<and>
        transcript (abs_state s') = [(Bot, ''Error: undefined'')] \<and>
        lastError (abs_state s') = Some ''Unknown error'' \<and>
        abs_state s' \<noteq> spec_complete (classify (Response False (Some (JObj []))))
                       (abs_state (init_state\<lparr>isBotThinking := True, inflight := [''a'']\<rparr>))"
  by (simp add: sendMessageToGemini_settle_eq handler_defs abs_state_def spec_description_def
      init_state_def)

section \<open>Rendering\<close>

text \<open>
  C27. As long as the gateway's reply and error fields are strings (or absent), every
  reachable screen renders: each bubble and the toast hold a string.
\<close>

theorem conformant_sessions_render:
  assumes "reach conformant_answers s"
  shows "renders (render s)"
  using reach_strings_state [OF assms] by (rule strings_state_renders)

theorem conformant_sessions_render_witness:
  "reach conformant_answers (init_state\<lparr>messages := [user_message 2 ''a'',
                                                    bot_message 3 (JStr ''Bonjour'')]\<rparr>) \<and>
   renders (render (init_state\<lparr>messages := [user_message 2 ''a'',
                                              bot_message 3 (JStr ''Bonjour'')]\<rparr>))"
proof -
  let ?r = "Response True (Some (JObj [(''reply'', JStr ''Bonjour'')]))"
  let ?s = "init_state\<lparr>messages := [user_message 2 ''a'', bot_message 3 (JStr ''Bonjour'')]\<rparr>"
  have "run conformant_answers init_state
          [(1, InputChange ''a''), (2, KeyDown ''Enter'' False), (3, GatewayAnswer 0 ?r)] = Some ?s"
    by (simp add: session_eval conformant_answers_def)
  then have r: "reach conformant_answers ?s" by (rule run_reach [OF reach_init])
  show ?thesis using r conformant_sessions_render [OF r] by simp
qed

section \<open>Requests\<close>

text \<open>
  C29. In every reachable state, whatever the events, each request in flight is one the
  gateway reads as a non-empty message with no surrounding whitespace: the trim and the
  guard of \<open>handleSendMessage\<close> reach the wire through \<open>JSON.stringify\<close>.
\<close>

theorem reach_requests_carry_trimmed:
  assumes "reach P s"
  shows "list_all (\<lambda>r. \<exists>t. gateway_message r = Some t \<and> t \<noteq> [] \<and> js_trim t = t)
           (issued_requests s)"
  using reach_inflight_trimmed [OF assms]
  by (simp add: issued_requests_def inflight_trimmed_def list_all_iff gateway_message_gemini_request)

theorem reach_requests_carry_trimmed_witness:
  "reach any_event (init_state\<lparr>messages := [user_message 2 ''a''], isBotThinking := True,
                                inflight := [''a'']\<rparr>) \<and>
   list_all (\<lambda>r. \<exists>t. gateway_message r = Some t \<and> t \<noteq> [] \<and> js_trim t = t)
     (issued_requests (init_state\<lparr>messages := [user_message 2 ''a''], isBotThinking := True,
                                  inflight := [''a'']\<rparr>))"
proof -
  let ?s = "init_state\<lparr>messages := [user_message 2 ''a''], isBotThinking := True,
                       inflight := [''a'']\<rparr>"
  have "run any_event init_state (take 2 enter_twice) = Some ?s"
    by (simp add: enter_twice_def session_eval)
  then have r: "reach any_event ?s" by (rule run_reach [OF reach_init])
  show ?thesis using r reach_requests_carry_trimmed [OF r] by simp
qed

text \<open>
  C30. The transcript scrolls to its end after every gateway answer and every clear, and
  after a send exactly when the send is accepted; typing in the input and closing the
  toast never scroll it.
\<close>

theorem scroll_effect_on_handlers:
  "scroll_effect_runs r (settle_ops now res) \<and> scroll_effect_runs r handleClearChat_ops \<and>
   (scroll_effect_runs r (handleSendMessage_ops s now) \<longleftrightarrow> js_trim (newMessage s) \<noteq> []) \<and>
   \<not> scroll_effect_runs r [SetNewMessage v] \<and> \<not> scroll_effect_runs r dismissError_ops"
proof -
  obtain w where "appended (outcome_ops now res) = [bot_message now w]"
    using outcome_ops_shape [of now res] by blast
  then show ?thesis
    by (simp add: scroll_effect_runs_iff settle_ops_def handleSendMessage_ops_def
        handleClearChat_ops_def dismissError_ops_def start_ops_def)
qed

end
